theory Spec2Isabelle
  imports Complex_Main "HOL-Library.Multiset"
begin

section \<open>JavaScript numbers and values\<close>

text \<open>
  A JavaScript number is an IEEE double. A finite double is a rational number, and the
  three special values that the code can produce from well-formed finite input (a
  division by zero, an overflow, a string that is not a numeral) are constructors of
  their own; there is one zero only. Two kinds of arithmetic are modelled. The layout
  code adds, subtracts and divides pixel sizes: there the operations \<open>jadd\<close>, \<open>jsub\<close>,
  \<open>jmul\<close> and \<open>jdiv\<close> are exact on finite numbers. The style resolver turns numerals
  into numbers and scales them: there every step rounds to the nearest double, by
  \<open>roundDouble\<close> below.
\<close>

datatype jsnum = Fin rat | PInf | NInf | NaN

fun jneg :: "jsnum \<Rightarrow> jsnum" where
  "jneg (Fin a) = Fin (- a)"
| "jneg PInf = NInf"
| "jneg NInf = PInf"
| "jneg NaN = NaN"

text \<open>\<open>a + b\<close> on numbers.\<close>

fun jadd :: "jsnum \<Rightarrow> jsnum \<Rightarrow> jsnum" where
  "jadd NaN _ = NaN"
| "jadd _ NaN = NaN"
| "jadd (Fin a) (Fin b) = Fin (a + b)"
| "jadd PInf NInf = NaN"
| "jadd NInf PInf = NaN"
| "jadd PInf _ = PInf"
| "jadd NInf _ = NInf"
| "jadd (Fin _) b = b"

text \<open>\<open>a - b\<close> on numbers.\<close>

definition jsub :: "jsnum \<Rightarrow> jsnum \<Rightarrow> jsnum" where
  "jsub a b = jadd a (jneg b)"

text \<open>The sign of a number that is not NaN: \<open>-1\<close>, \<open>0\<close> or \<open>1\<close>.\<close>

fun jsign :: "jsnum \<Rightarrow> rat" where
  "jsign (Fin a) = sgn a"
| "jsign PInf = 1"
| "jsign NInf = - 1"
| "jsign NaN = 0"

definition inf_of_sign :: "rat \<Rightarrow> jsnum" where
  "inf_of_sign s = (if s = 0 then NaN else if 0 < s then PInf else NInf)"

text \<open>\<open>a * b\<close> on numbers: infinity times zero is NaN.\<close>

fun jmul :: "jsnum \<Rightarrow> jsnum \<Rightarrow> jsnum" where
  "jmul NaN _ = NaN"
| "jmul _ NaN = NaN"
| "jmul (Fin a) (Fin b) = Fin (a * b)"
| "jmul a b = inf_of_sign (jsign a * jsign b)"

text \<open>
  \<open>a / b\<close> on numbers. A finite number divided by zero is an infinity of the sign of the
  dividend, and \<open>0 / 0\<close> is NaN (the divisor is taken to be the positive zero).
\<close>

fun jdiv :: "jsnum \<Rightarrow> jsnum \<Rightarrow> jsnum" where
  "jdiv NaN _ = NaN"
| "jdiv _ NaN = NaN"
| "jdiv (Fin a) (Fin b) = (if b = 0 then inf_of_sign (sgn a) else Fin (a / b))"
| "jdiv (Fin _) _ = Fin 0"
| "jdiv a (Fin b) = inf_of_sign (jsign a * (if b < 0 then - 1 else 1))"
| "jdiv _ _ = NaN"


text \<open>Truthiness of a number, for \<open>a || b\<close>: zero and NaN are falsy.\<close>

fun truthy_num :: "jsnum \<Rightarrow> bool" where
  "truthy_num (Fin a) = (a \<noteq> 0)"
| "truthy_num NaN = False"
| "truthy_num _ = True"

text \<open>
  Rounding to the nearest double, ties to even (IEEE 754 binary64). \<open>bitlen n\<close> is the
  number of binary digits of \<open>n\<close>, and \<open>ilog2 q\<close> the exponent \<open>e\<close> with
  \<open>2 powi e \<le> q < 2 powi (e + 1)\<close> for a positive \<open>q\<close>. A double has 53 significant
  binary digits and a last digit of weight at least \<open>2 powi (- 1074)\<close>; a result of
  magnitude \<open>2 ^ 1024\<close> or more is an infinity.
\<close>

fun bitlen :: "nat \<Rightarrow> nat" where
  "bitlen n = (if n = 0 then 0 else Suc (bitlen (n div 2)))"

declare bitlen.simps [simp del]

definition ilog2 :: "rat \<Rightarrow> int" where
  "ilog2 q = (if 1 \<le> q then int (bitlen (nat \<lfloor>q\<rfloor>)) - 1
              else - int (bitlen (nat (\<lceil>1 / q\<rceil> - 1))))"

definition roundHalfEven :: "rat \<Rightarrow> int" where
  "roundHalfEven m =
     (let f = \<lfloor>m\<rfloor>; d = m - of_int f
      in if d < 1 / 2 then f else if 1 / 2 < d then f + 1 else if even f then f else f + 1)"

definition roundDouble :: "rat \<Rightarrow> jsnum" where
  "roundDouble q =
     (if q = 0 then Fin 0
      else let a = \<bar>q\<bar>;
               k = max (ilog2 a - 52) (- 1074);
               v = of_int (roundHalfEven (a / 2 powi k)) * 2 powi k
           in if 2 ^ 1024 \<le> v then (if 0 < q then PInf else NInf)
              else Fin (if 0 < q then v else - v))"

definition toDouble :: "jsnum \<Rightarrow> jsnum" where
  "toDouble a = (case a of Fin q \<Rightarrow> roundDouble q | _ \<Rightarrow> a)"

text \<open>\<open>a / b\<close> and \<open>a * b\<close> on doubles: the exact result, rounded.\<close>

definition fdiv :: "jsnum \<Rightarrow> jsnum \<Rightarrow> jsnum" where
  "fdiv a b = toDouble (jdiv a b)"

definition fmul :: "jsnum \<Rightarrow> jsnum \<Rightarrow> jsnum" where
  "fmul a b = toDouble (jmul a b)"

text \<open>
  The values of a resolved style: a number, or a string that was passed through.
\<close>

datatype jsval = VNum jsnum | VStr string

section \<open>Strings\<close>

text \<open>\<open>s.endsWith(t)\<close>.\<close>

definition endsWith :: "string \<Rightarrow> string \<Rightarrow> bool" where
  "endsWith s t = (length t \<le> length s \<and> drop (length s - length t) s = t)"

text \<open>\<open>s.slice(0, -n)\<close>: the string without its last \<open>n\<close> characters.\<close>

definition slice0 :: "string \<Rightarrow> nat \<Rightarrow> string" where
  "slice0 s n = take (length s - n) s"

definition isDigit :: "char \<Rightarrow> bool" where
  "isDigit c = (c \<in> set ''0123456789'')"

definition digitVal :: "char \<Rightarrow> nat" where
  "digitVal c = of_char c - 48"

definition digitsVal :: "string \<Rightarrow> nat" where
  "digitsVal ds = foldl (\<lambda>n c. 10 * n + digitVal c) 0 ds"

text \<open>
  The decimal numerals that both \<open>parseFloat\<close> and the string-to-number conversion read:
  an optional sign, digits, and an optional fraction (or a fraction alone). The scanner
  returns the mathematical value of the longest such prefix and the rest of the string.
  Exponents, \<open>Infinity\<close>, hexadecimal literals and leading white space are not modelled:
  the two patterns of \<open>resolveStyle\<close> let none of them through.
\<close>

definition scanDecimal :: "string \<Rightarrow> (rat \<times> string) option" where
  "scanDecimal s =
     (let (neg, r) = (case s of
                        c # t \<Rightarrow> if c = CHR ''-'' then (True, t)
                                 else if c = CHR ''+'' then (False, t) else (False, s)
                      | [] \<Rightarrow> (False, s));
          ip = takeWhile isDigit r;
          r1 = dropWhile isDigit r;
          (fp, r2) = (case r1 of
                        c # t \<Rightarrow> if c = CHR ''.'' \<and> (ip \<noteq> [] \<or> takeWhile isDigit t \<noteq> [])
                                 then (takeWhile isDigit t, dropWhile isDigit t)
                                 else ([], r1)
                      | [] \<Rightarrow> ([], r1));
          v = of_nat (digitsVal ip) + of_nat (digitsVal fp) / 10 ^ length fp
      in if ip = [] \<and> fp = [] then None
         else Some (if neg then - v else v, r2))"

text \<open>
  \<open>parseFloat(s)\<close>: the double nearest to the value of the longest numeral prefix, NaN
  when there is none.
\<close>

definition parseFloat :: "string \<Rightarrow> jsnum" where
  "parseFloat s = (case scanDecimal s of None \<Rightarrow> NaN | Some (v, _) \<Rightarrow> roundDouble v)"

text \<open>
  The conversion of a string to a number, as the operator \<open>/\<close> applies it to a string
  operand: the whole string has to be a numeral (the empty string is \<open>0\<close>), and the
  result is the double nearest to its value.
\<close>

definition toNumber :: "string \<Rightarrow> jsnum" where
  "toNumber s =
     (if s = [] then Fin 0
      else case scanDecimal s of
             Some (v, r) \<Rightarrow> if r = [] then roundDouble v else NaN
           | None \<Rightarrow> NaN)"

section \<open>Regular expressions\<close>

text \<open>
  The fragment of JavaScript regular expressions that the two patterns use: a literal
  character, the class \<open>\d\<close>, concatenation and the postfix operators \<open>?\<close>, \<open>*\<close> and \<open>+\<close>.
  \<open>Fail\<close>, \<open>Nil\<close> and \<open>Alt\<close> are there for the derivatives. Both patterns are anchored
  with \<open>^\<close> and \<open>$\<close> and have no flags, so \<open>test\<close> is a match of the whole string.
\<close>

datatype regex =
    Fail
  | Nil
  | Chr char
  | DigitClass
  | Alt regex regex
  | Cat regex regex
  | Opt regex
  | Many regex
  | Many1 regex

fun nullable :: "regex \<Rightarrow> bool" where
  "nullable Fail = False"
| "nullable Nil = True"
| "nullable (Chr _) = False"
| "nullable DigitClass = False"
| "nullable (Alt r s) = (nullable r \<or> nullable s)"
| "nullable (Cat r s) = (nullable r \<and> nullable s)"
| "nullable (Opt r) = True"
| "nullable (Many r) = True"
| "nullable (Many1 r) = nullable r"

fun deriv :: "char \<Rightarrow> regex \<Rightarrow> regex" where
  "deriv c Fail = Fail"
| "deriv c Nil = Fail"
| "deriv c (Chr d) = (if c = d then Nil else Fail)"
| "deriv c DigitClass = (if isDigit c then Nil else Fail)"
| "deriv c (Alt r s) = Alt (deriv c r) (deriv c s)"
| "deriv c (Cat r s) =
     (if nullable r then Alt (Cat (deriv c r) s) (deriv c s) else Cat (deriv c r) s)"
| "deriv c (Opt r) = deriv c r"
| "deriv c (Many r) = Cat (deriv c r) (Many r)"
| "deriv c (Many1 r) = Cat (deriv c r) (Many r)"

text \<open>\<open>re.test(s)\<close> for an anchored pattern.\<close>

definition test :: "regex \<Rightarrow> string \<Rightarrow> bool" where
  "test r s = nullable (foldl (\<lambda>q c. deriv c q) r s)"

text \<open>The strings a pattern stands for, to state what \<open>test\<close> decides.\<close>

definition conc :: "string set \<Rightarrow> string set \<Rightarrow> string set" where
  "conc A B = {u @ v | u v. u \<in> A \<and> v \<in> B}"

inductive_set rep :: "string set \<Rightarrow> string set" for A :: "string set" where
  rep_nil: "[] \<in> rep A"
| rep_app: "u \<in> A \<Longrightarrow> v \<in> rep A \<Longrightarrow> u @ v \<in> rep A"

fun lang :: "regex \<Rightarrow> string set" where
  "lang Fail = {}"
| "lang Nil = {[]}"
| "lang (Chr c) = {[c]}"
| "lang DigitClass = {[c] | c. isDigit c}"
| "lang (Alt r s) = lang r \<union> lang s"
| "lang (Cat r s) = conc (lang r) (lang s)"
| "lang (Opt r) = insert [] (lang r)"
| "lang (Many r) = rep (lang r)"
| "lang (Many1 r) = conc (lang r) (rep (lang r))"

section \<open>resolveStyle\<close>

text \<open>\<open>/^-?\d+\.?\d*\px$/\<close>; the escape \<open>\p\<close> is the letter p in a pattern without flags.\<close>

definition isPixelDimension :: regex where
  "isPixelDimension =
     Cat (Opt (Chr CHR ''-'')) (Cat (Many1 DigitClass) (Cat (Opt (Chr CHR ''.''))
       (Cat (Many DigitClass) (Cat (Chr CHR ''p'') (Chr CHR ''x'')))))"

text \<open>\<open>/^-?\d+\.?\d*%+$/\<close>\<close>

definition isPercentDimension :: regex where
  "isPercentDimension =
     Cat (Opt (Chr CHR ''-'')) (Cat (Many1 DigitClass) (Cat (Opt (Chr CHR ''.''))
       (Cat (Many DigitClass) (Many1 (Chr CHR ''%'')))))"

text \<open>
  The sizing context: an object that may be absent, and whose \<open>width\<close> and \<open>height\<close> may
  be absent.
\<close>

record sizingContext =
  width :: "jsnum option"
  height :: "jsnum option"

text \<open>\<open>context?.height ?? 1\<close> and \<open>context?.width ?? 1\<close>.\<close>

definition contextHeight :: "sizingContext option \<Rightarrow> jsnum" where
  "contextHeight context =
     (case context of None \<Rightarrow> Fin 1
      | Some c \<Rightarrow> (case height c of None \<Rightarrow> Fin 1 | Some h \<Rightarrow> h))"

definition contextWidth :: "sizingContext option \<Rightarrow> jsnum" where
  "contextWidth context =
     (case context of None \<Rightarrow> Fin 1
      | Some c \<Rightarrow> (case width c of None \<Rightarrow> Fin 1 | Some w \<Rightarrow> w))"

definition resolvePercentDimension :: "string \<Rightarrow> string \<Rightarrow> sizingContext option \<Rightarrow> jsnum" where
  "resolvePercentDimension value side context =
     (let value' = fdiv (toNumber (slice0 value 1)) (Fin 100)
      in if endsWith side ''Top'' \<or> endsWith side ''Bottom''
         then fmul value' (contextHeight context)
         else fmul value' (contextWidth context))"

text \<open>\<open>mapValues(object, fn)\<close> of lodash: a new object with the same keys.\<close>

definition mapValues :: "(string \<rightharpoonup> 'a) \<Rightarrow> ('a \<Rightarrow> string \<Rightarrow> 'b) \<Rightarrow> (string \<rightharpoonup> 'b)" where
  "mapValues object fn = (\<lambda>key. case object key of None \<Rightarrow> None | Some v \<Rightarrow> Some (fn v key))"

text \<open>
  \<open>formatCssStyleValue\<close> and \<open>parseCssStyleValue\<close> are imported from the modules
  \<open>./format-css-style-value\<close> and \<open>./parse-css-style-value\<close>, whose code is missing;
  they are parameters here. The parsed style maps a property name to its raw token
  string.
\<close>

definition resolveStyle ::
  "('s \<Rightarrow> string) \<Rightarrow> (string \<Rightarrow> (string \<rightharpoonup> string)) \<Rightarrow> 's \<Rightarrow> sizingContext option
     \<Rightarrow> (string \<rightharpoonup> jsval)" where
  "resolveStyle formatCssStyleValue parseCssStyleValue style context =
     (let result = parseCssStyleValue (formatCssStyleValue style)
      in mapValues result (\<lambda>value property.
           if test isPixelDimension value then VNum (parseFloat (slice0 value 2))
           else if test isPercentDimension value
                then VNum (resolvePercentDimension value property context)
           else VStr value))"


text \<open>
  A pixel or percent token is written \<open>sg @ ds @ dot @ fs\<close> followed by its unit: an
  optional minus sign, at least one digit, and an optional point with the digits of the
  fraction. \<open>decimalValue\<close> is the rational number that the numeral denotes.
\<close>

definition numeralParts :: "string \<Rightarrow> string \<Rightarrow> string \<Rightarrow> string \<Rightarrow> bool" where
  "numeralParts sg ds dot fs =
     ((sg = [] \<or> sg = ''-'') \<and> ds \<noteq> [] \<and> list_all isDigit ds \<and> list_all isDigit fs \<and>
      (dot = ''.'' \<or> (dot = [] \<and> fs = [])))"

definition decimalValue :: "string \<Rightarrow> string \<Rightarrow> string \<Rightarrow> rat" where
  "decimalValue sg ds fs =
     (if sg = ''-'' then - 1 else 1) *
     (of_nat (digitsVal ds) + of_nat (digitsVal fs) / 10 ^ length fs)"

section \<open>getCategories\<close>

text \<open>
  A data series holds named data points. The comparator that a caller may pass as
  \<open>categoryAxisSort\<close> is foreign code: it returns a number or throws.
\<close>

record dataItem =
  name :: string
  "value" :: jsnum

record series =
  data :: "dataItem list"

datatype exn = Thrown string

type_synonym comparator = "string \<Rightarrow> string \<Rightarrow> exn + jsnum"

datatype categoryAxisSort = Keyword string | Comparator comparator

text \<open>
  The order of \<open>Array.prototype.sort\<close> without a comparator: strings are compared code
  unit by code unit, a proper prefix first.
\<close>

fun strLess :: "string \<Rightarrow> string \<Rightarrow> bool" where
  "strLess [] [] = False"
| "strLess [] (y # ys) = True"
| "strLess (x # xs) [] = False"
| "strLess (x # xs) (y # ys) =
     ((of_char x :: nat) < of_char y \<or> (x = y \<and> strLess xs ys))"

definition defaultCompare :: comparator where
  "defaultCompare a b =
     Inr (if strLess a b then Fin (- 1) else if strLess b a then Fin 1 else Fin 0)"

text \<open>A comparator's result \<open>v\<close> asks for a swap when \<open>v > 0\<close>; NaN counts as \<open>0\<close>.\<close>

fun positive :: "jsnum \<Rightarrow> bool" where
  "positive (Fin a) = (0 < a)"
| "positive PInf = True"
| "positive _ = False"

text \<open>
  \<open>array.sort(compare)\<close>. The algorithm of the engine is implementation-defined; it is
  modelled as a stable insertion sort that stops at the first exception of the
  comparator.
\<close>

fun insertBy :: "comparator \<Rightarrow> string \<Rightarrow> string list \<Rightarrow> exn + string list" where
  "insertBy compare a [] = Inr [a]"
| "insertBy compare a (b # bs) =
     (case compare a b of
        Inl e \<Rightarrow> Inl e
      | Inr v \<Rightarrow>
          if positive v
          then (case insertBy compare a bs of Inl e \<Rightarrow> Inl e | Inr r \<Rightarrow> Inr (b # r))
          else Inr (a # b # bs))"

fun sortBy :: "comparator \<Rightarrow> string list \<Rightarrow> exn + string list" where
  "sortBy compare [] = Inr []"
| "sortBy compare (a # as) =
     (case sortBy compare as of Inl e \<Rightarrow> Inl e | Inr r \<Rightarrow> insertBy compare a r)"

text \<open>
  Modelled from the spec: \<open>getUniqueDatasetValues(series, 'name')\<close>, imported from the
  module \<open>../utils/data/get-unique-dataset-values\<close>, whose code is missing. The spec
  describes it as producing the distinct names of the data points of all series in
  stable first-seen order. \<open>getCategories\<close> below takes the helper as a parameter; this
  definition is the instance used in examples.
\<close>

fun firstSeen :: "string list \<Rightarrow> string list \<Rightarrow> string list" where
  "firstSeen seen [] = []"
| "firstSeen seen (a # as) =
     (if a \<in> set seen then firstSeen seen as else a # firstSeen (a # seen) as)"

definition getUniqueDatasetValues :: "series list \<Rightarrow> string list" where
  "getUniqueDatasetValues series = firstSeen [] (concat (map (\<lambda>s. map name (data s)) series))"

text \<open>
  The arguments of the chart that the modelled functions read. A field that the caller
  did not pass is \<open>None\<close>.
\<close>

record args =
  categoryAxisSort :: "categoryAxisSort option"
  categoryAxisMaxLabelCount :: "jsnum option"
  xAxisPointer :: "string option"
  yAxisPointer :: "string option"
  xAxisPointerLabel :: "string option"
  yAxisPointerLabel :: "string option"
  xAxisTooltip :: "bool option"
  yAxisTooltip :: "bool option"
  xAxisFormatter :: "(jsval \<Rightarrow> string) option"
  yAxisFormatter :: "(jsval \<Rightarrow> string) option"

text \<open>
  \<open>getCategories\<close> returns the categories together with the warnings it has written to
  the console, or the exception of the comparator.
\<close>

definition getCategories ::
  "(series list \<Rightarrow> string list) \<Rightarrow> args \<Rightarrow> series list \<Rightarrow> exn + (string list \<times> string list)" where
  "getCategories getUniqueDatasetValues' args series =
     (let sortOrder = (case categoryAxisSort args of
                         None \<Rightarrow> Keyword ''firstSeries'' | Some v \<Rightarrow> v);
          categories = getUniqueDatasetValues' series
      in if sortOrder \<noteq> Keyword ''firstSeries'' then
           (case sortOrder of
              Keyword k \<Rightarrow>
                if k = ''asc'' then
                  (case sortBy defaultCompare categories of
                     Inl e \<Rightarrow> Inl e | Inr cs \<Rightarrow> Inr (cs, []))
                else if k = ''desc'' then
                  (case sortBy defaultCompare categories of
                     Inl e \<Rightarrow> Inl e | Inr cs \<Rightarrow> Inr (rev cs, []))
                else Inr (categories, [''Invalid 'categoryAxisSort' value: '' @ k])
            | Comparator compare \<Rightarrow>
                (case sortBy compare categories of
                   Inl e \<Rightarrow> Inl e | Inr cs \<Rightarrow> Inr (cs, [])))
         else Inr (categories, []))"


section \<open>Axis sizing\<close>

text \<open>
  A resolved style, as the layout code reads it: the box-model properties are numbers,
  the other properties are passed on to the chart configuration as they are (\<open>None\<close>
  is a property that the style does not have).
\<close>

record resolvedStyle =
  marginTop :: jsnum
  marginRight :: jsnum
  marginBottom :: jsnum
  marginLeft :: jsnum
  paddingTop :: jsnum
  paddingRight :: jsnum
  paddingBottom :: jsnum
  paddingLeft :: jsnum
  borderTopWidth :: jsnum
  borderRightWidth :: jsnum
  borderBottomWidth :: jsnum
  borderLeftWidth :: jsnum
  borderTopStyle :: "jsval option"
  borderRightStyle :: "jsval option"
  borderBottomStyle :: "jsval option"
  borderLeftStyle :: "jsval option"
  borderTopColor :: "jsval option"
  borderTopType :: "jsval option"
  borderRadius :: "jsval option"
  color :: "jsval option"
  backgroundColor :: "jsval option"
  opacity :: "jsval option"
  fontStyle :: "jsval option"
  fontWeight :: "jsval option"
  fontFamily :: "jsval option"
  fontSize :: "jsval option"

record textMetrics =
  width :: jsnum
  height :: jsnum

text \<open>
  A layout: the outer rectangle, the inner rectangle and the border widths that the axis
  code reads.
\<close>

record layout =
  x :: jsnum
  y :: jsnum
  width :: jsnum
  height :: jsnum
  innerX :: jsnum
  innerY :: jsnum
  innerWidth :: jsnum
  innerHeight :: jsnum
  borderLeftWidth :: jsnum
  borderRightWidth :: jsnum

text \<open>
  The object that \<open>computeYAxisInfo\<close> and \<open>computeXAxisInfo\<close> return. The first returns no
  \<open>height\<close> and no \<open>maxLabelWidth\<close>, the second no \<open>heightOverflow\<close>.
\<close>

record axisInfo =
  width :: jsnum
  height :: "jsnum option"
  labelMetrics :: textMetrics
  maxLabelWidth :: "jsnum option"
  heightOverflow :: "jsnum option"

text \<open>A property that is read as a number: \<open>undefined\<close> becomes NaN in arithmetic.\<close>

definition num :: "jsnum option \<Rightarrow> jsnum" where
  "num v = (case v of None \<Rightarrow> NaN | Some n \<Rightarrow> n)"





section \<open>addAxisPointer\<close>

datatype axis = AxisX | AxisY

text \<open>
  The styles of the chart after \<open>resolveStyle\<close>: the function resolves
  \<open>styles[name]\<close> and \<open>styles[name + 'Label']\<close> against the layout of the context in its
  first lines; the model reads the resolved styles from the context.
\<close>

record styles =
  xAxis :: resolvedStyle
  yAxis :: resolvedStyle
  xAxisPointer :: resolvedStyle
  yAxisPointer :: resolvedStyle
  xAxisPointerLabel :: resolvedStyle
  yAxisPointerLabel :: resolvedStyle

record chartContext =
  args :: args
  styles :: styles

text \<open>The configuration objects that \<open>addAxisPointer\<close> writes.\<close>

record pointerParams =
  "value" :: jsval

record lineStyle =
  color :: "jsval option"
  width :: jsnum
  "type" :: "jsval option"
  opacity :: "jsval option"

record shadowStyle =
  color :: "jsval option"
  opacity :: "jsval option"

record axisPointerLabel =
  "show" :: "bool option"
  formatter :: "(pointerParams \<Rightarrow> string) option"
  color :: "jsval option"
  fontStyle :: "jsval option"
  fontWeight :: "jsval option"
  fontFamily :: "jsval option"
  fontSize :: "jsval option"
  backgroundColor :: "jsval option"
  borderWidth :: "jsnum option"
  borderColor :: "jsval option"
  borderType :: "jsval option"
  borderRadius :: "jsval option"
  padding :: "jsnum list option"
  margin :: "jsnum option"

record axisPointer =
  "show" :: bool
  "type" :: string
  triggerTooltip :: bool
  z :: jsnum
  lineStyle :: "lineStyle option"
  shadowStyle :: "shadowStyle option"
  label :: axisPointerLabel

record axisConfig =
  axisPointer :: "axisPointer option"

text \<open>\<open>a || b\<close> on two numbers and on two properties that may be absent.\<close>

definition orNum :: "jsnum \<Rightarrow> jsnum \<Rightarrow> jsnum" where
  "orNum a b = (if truthy_num a then a else b)"

fun truthy :: "jsval option \<Rightarrow> bool" where
  "truthy None = False"
| "truthy (Some (VNum n)) = truthy_num n"
| "truthy (Some (VStr s)) = (s \<noteq> [])"

definition orVal :: "jsval option \<Rightarrow> jsval option \<Rightarrow> jsval option" where
  "orVal a b = (if truthy a then a else b)"

text \<open>The label object of the axis pointer before the \<open>switch\<close> sets its margin.\<close>

definition pointerLabel ::
  "string \<Rightarrow> (jsval \<Rightarrow> string) option \<Rightarrow> resolvedStyle \<Rightarrow> axisPointerLabel" where
  "pointerLabel labelPosition formatter' labelStyle =
     (if labelPosition = ''none''
      then \<lparr>axisPointerLabel.show = Some False, formatter = None, color = None, fontStyle = None,
            fontWeight = None, fontFamily = None, fontSize = None, backgroundColor = None,
            borderWidth = None, borderColor = None, borderType = None, borderRadius = None,
            padding = None, margin = None\<rparr>
      else \<lparr>axisPointerLabel.show = None,
            formatter = (case formatter' of
                           None \<Rightarrow> None
                         | Some f \<Rightarrow> Some (\<lambda>params. f (pointerParams.value params))),
            color = resolvedStyle.color labelStyle,
            fontStyle = resolvedStyle.fontStyle labelStyle,
            fontWeight = resolvedStyle.fontWeight labelStyle,
            fontFamily = resolvedStyle.fontFamily labelStyle,
            fontSize = resolvedStyle.fontSize labelStyle,
            backgroundColor = resolvedStyle.backgroundColor labelStyle,
            borderWidth = Some (borderTopWidth labelStyle),
            borderColor = borderTopColor labelStyle,
            borderType = borderTopType labelStyle,
            borderRadius = resolvedStyle.borderRadius labelStyle,
            padding = Some [paddingTop labelStyle, paddingRight labelStyle,
                            paddingBottom labelStyle, paddingLeft labelStyle],
            margin = None\<rparr>)"

text \<open>\<open>args[`${axis}AxisPointer`]\<close> and the test \<open>!type || type === 'none'\<close>.\<close>

definition pointerType :: "chartContext \<Rightarrow> axis \<Rightarrow> string option" where
  "pointerType context axis =
     (case axis of AxisX \<Rightarrow> args.xAxisPointer (args context)
                 | AxisY \<Rightarrow> args.yAxisPointer (args context))"

definition pointerOff :: "string option \<Rightarrow> bool" where
  "pointerOff type' = (case type' of None \<Rightarrow> True | Some t \<Rightarrow> t = [] \<or> t = ''none'')"

text \<open>
  \<open>styles[`${name}Label`]\<close> after \<open>resolveStyle\<close>, and
  \<open>args[`${name}Label`] ?? 'bottom'\<close>.
\<close>

definition pointerLabelStyle :: "chartContext \<Rightarrow> axis \<Rightarrow> resolvedStyle" where
  "pointerLabelStyle context axis =
     (case axis of AxisX \<Rightarrow> styles.xAxisPointerLabel (styles context)
                 | AxisY \<Rightarrow> styles.yAxisPointerLabel (styles context))"

definition pointerLabelPosition :: "chartContext \<Rightarrow> axis \<Rightarrow> string" where
  "pointerLabelPosition context axis =
     (case (case axis of AxisX \<Rightarrow> args.xAxisPointerLabel (args context)
                       | AxisY \<Rightarrow> args.yAxisPointerLabel (args context)) of
        None \<Rightarrow> ''bottom'' | Some p \<Rightarrow> p)"

text \<open>The constants \<open>labelSize\<close> and \<open>labelMargins\<close> of \<open>addAxisPointer\<close>.\<close>

definition labelSize :: "resolvedStyle \<Rightarrow> axisInfo \<Rightarrow> axis \<Rightarrow> jsnum" where
  "labelSize labelStyle axisInfo axis =
     (if axis = AxisX
      then jadd (jadd (jadd (jadd (num (axisInfo.height axisInfo))
             (paddingTop labelStyle)) (paddingBottom labelStyle))
             (borderTopWidth labelStyle)) (borderBottomWidth labelStyle)
      else jadd (jadd (jadd (jadd (axisInfo.width axisInfo)
             (paddingLeft labelStyle)) (paddingRight labelStyle))
             (resolvedStyle.borderLeftWidth labelStyle))
             (resolvedStyle.borderRightWidth labelStyle))"

definition labelMargins :: "resolvedStyle \<Rightarrow> axis \<Rightarrow> jsnum" where
  "labelMargins labelStyle axis =
     (if axis = AxisX
      then jadd (marginTop labelStyle) (marginBottom labelStyle)
      else jadd (marginLeft labelStyle) (marginRight labelStyle))"

text \<open>
  \<open>addAxisPointer(context, layout, config, axisInfo, axis)\<close> on values: the layout it
  returns and the configuration as it leaves it.
\<close>

definition addAxisPointer ::
  "chartContext \<Rightarrow> layout \<Rightarrow> axisConfig \<Rightarrow> axisInfo \<Rightarrow> axis \<Rightarrow> layout \<times> axisConfig" where
  "addAxisPointer context layout config axisInfo axis =
     (case pointerType context axis of
        None \<Rightarrow> (layout, config)
      | Some type' \<Rightarrow>
         if type' = [] \<or> type' = ''none'' then (layout, config)
         else
           let args' = args context;
               styles' = styles context;
               pointerStyle = (case axis of AxisX \<Rightarrow> styles.xAxisPointer styles'
                                          | AxisY \<Rightarrow> styles.yAxisPointer styles');
               labelStyle = pointerLabelStyle context axis;
               labelPosition = pointerLabelPosition context axis;
               triggerTooltip' =
                 (case (case axis of AxisX \<Rightarrow> xAxisTooltip args'
                                   | AxisY \<Rightarrow> yAxisTooltip args') of
                    None \<Rightarrow> axis = AxisX | Some t \<Rightarrow> t);
               formatter' = (case axis of AxisX \<Rightarrow> xAxisFormatter args'
                                        | AxisY \<Rightarrow> yAxisFormatter args');
               pointer = \<lparr>axisPointer.show = True, type = type', triggerTooltip = triggerTooltip',
                  z = Fin 0,
                  lineStyle =
                    (if type' = ''line''
                     then Some \<lparr>lineStyle.color = resolvedStyle.color pointerStyle,
                            width = (if axis = AxisX
                                     then orNum (resolvedStyle.borderLeftWidth pointerStyle)
                                            (resolvedStyle.borderRightWidth pointerStyle)
                                     else orNum (borderTopWidth pointerStyle)
                                            (borderBottomWidth pointerStyle)),
                            type = (if axis = AxisX
                                    then orVal (borderLeftStyle pointerStyle)
                                           (borderRightStyle pointerStyle)
                                    else orVal (borderTopStyle pointerStyle)
                                           (borderBottomStyle pointerStyle)),
                            opacity = resolvedStyle.opacity pointerStyle\<rparr>
                     else None),
                  shadowStyle =
                    (if type' = ''shadow''
                     then Some \<lparr>shadowStyle.color = resolvedStyle.backgroundColor pointerStyle,
                            opacity = resolvedStyle.opacity pointerStyle\<rparr>
                     else None),
                  label = pointerLabel labelPosition formatter' labelStyle\<rparr>;
               labelSize' = labelSize labelStyle axisInfo axis;
               labelMargins' = labelMargins labelStyle axis;
               setMargin = (\<lambda>m. config\<lparr>axisPointer :=
                  Some (pointer\<lparr>label := (label pointer)\<lparr>margin := Some m\<rparr>\<rparr>)\<rparr>)
           in if labelPosition = ''top'' then
                (layout\<lparr>innerHeight := jsub (innerHeight layout) (jadd labelSize' labelMargins'),
                        innerY := jadd (innerY layout)
                                    (jadd (num (axisInfo.height axisInfo)) labelMargins')\<rparr>,
                 setMargin (jsub (jadd labelSize' (marginTop labelStyle)) (innerHeight layout)))
              else if labelPosition = ''right'' then
                (layout\<lparr>innerWidth := jsub (innerWidth layout) (jadd labelSize' labelMargins')\<rparr>,
                 setMargin (jsub (jsub labelSize' (marginLeft labelStyle)) (innerWidth layout)))
              else if labelPosition = ''bottom'' then
                (layout\<lparr>innerHeight := jsub (innerHeight layout) (marginTop labelStyle)\<rparr>,
                 setMargin (marginTop labelStyle))
              else if labelPosition = ''left'' then
                (layout, setMargin (marginRight labelStyle))
              else (layout, config\<lparr>axisPointer := Some pointer\<rparr>))"


section \<open>The order of axis sizing in generatePlotConfig\<close>




section \<open>Objects and references\<close>

text \<open>
  To say which objects a function writes, the objects live in a store and the functions
  take and return references. A reference is an index into the store; a new object is
  put at the end, so that its reference is one that no object had before.
\<close>

datatype 's object =
    StyleObject 's
  | ResolvedStyleObject "string \<rightharpoonup> jsval"
  | LayoutObject layout
  | ConfigObject axisConfig
  | SeriesArray "series list"
  | StringArray "string list"

type_synonym 's store = "'s object list"

definition deref :: "'s store \<Rightarrow> nat \<Rightarrow> 's object option" where
  "deref h r = (if r < length h then Some (h ! r) else None)"

definition alloc :: "'s store \<Rightarrow> 's object \<Rightarrow> 's store \<times> nat" where
  "alloc h ob = (h @ [ob], length h)"

text \<open>
  \<open>resolveStyle\<close> reads the style object and returns the object that \<open>mapValues\<close> builds.
  \<open>None\<close> is a reference that is not a style object.
\<close>

definition resolveStyle_store ::
  "('s \<Rightarrow> string) \<Rightarrow> (string \<Rightarrow> (string \<rightharpoonup> string)) \<Rightarrow> 's store \<Rightarrow> nat
     \<Rightarrow> sizingContext option \<Rightarrow> ('s store \<times> nat) option" where
  "resolveStyle_store formatCssStyleValue parseCssStyleValue h style context =
     (case deref h style of
        Some (StyleObject st) \<Rightarrow>
          Some (alloc h (ResolvedStyleObject
                  (resolveStyle formatCssStyleValue parseCssStyleValue st context)))
      | _ \<Rightarrow> None)"

text \<open>
  \<open>addAxisPointer\<close> returns its argument \<open>layout\<close> itself when the pointer is off.
  Otherwise it assigns \<open>config.axisPointer\<close> in the object it was given, and returns the
  copy \<open>{ ...layout }\<close>, a new object, with the fields that the \<open>switch\<close> assigns.
\<close>

definition addAxisPointer_store ::
  "chartContext \<Rightarrow> 's store \<Rightarrow> nat \<Rightarrow> nat \<Rightarrow> axisInfo \<Rightarrow> axis \<Rightarrow> ('s store \<times> nat) option" where
  "addAxisPointer_store context h layout config axisInfo axis =
     (case (deref h layout, deref h config) of
        (Some (LayoutObject l), Some (ConfigObject c)) \<Rightarrow>
          if pointerOff (pointerType context axis) then Some (h, layout)
          else
            let (l', c') = addAxisPointer context l c axisInfo axis;
                h1 = h[config := ConfigObject c']
            in Some (alloc h1 (LayoutObject l'))
      | _ \<Rightarrow> None)"

text \<open>
  \<open>getCategories\<close> sorts, in place, the array that \<open>getUniqueDatasetValues\<close> has built (a
  new array, by the spec of that helper), and returns it.
\<close>

definition getCategories_store ::
  "(series list \<Rightarrow> string list) \<Rightarrow> args \<Rightarrow> 's store \<Rightarrow> nat
     \<Rightarrow> ('s store \<times> (exn + (nat \<times> string list))) option" where
  "getCategories_store getUniqueDatasetValues' args' h series =
     (case deref h series of
        Some (SeriesArray ss) \<Rightarrow>
          let (h1, categories) = alloc h (StringArray (getUniqueDatasetValues' ss))
          in (case getCategories getUniqueDatasetValues' args' ss of
                Inl e \<Rightarrow> Some (h1, Inl e)
              | Inr (cs, warnings) \<Rightarrow>
                  Some (h1[categories := StringArray cs], Inr (categories, warnings)))
      | _ \<Rightarrow> None)"

section \<open>Example inputs\<close>

definition zeroStyle :: resolvedStyle where
  "zeroStyle =
     \<lparr>marginTop = Fin 0, marginRight = Fin 0, marginBottom = Fin 0, marginLeft = Fin 0,
      paddingTop = Fin 0, paddingRight = Fin 0, paddingBottom = Fin 0, paddingLeft = Fin 0,
      borderTopWidth = Fin 0, borderRightWidth = Fin 0, borderBottomWidth = Fin 0,
      borderLeftWidth = Fin 0,
      borderTopStyle = None, borderRightStyle = None, borderBottomStyle = None,
      borderLeftStyle = None, borderTopColor = None, borderTopType = None,
      borderRadius = None, color = None, backgroundColor = None, opacity = None,
      fontStyle = None, fontWeight = None, fontFamily = None, fontSize = None\<rparr>"

text \<open>A pointer label style with padding 4, border 1 and margins 2 (top) and 6 (bottom).\<close>

definition labelStyle0 :: resolvedStyle where
  "labelStyle0 =
     zeroStyle\<lparr>marginTop := Fin 2, marginBottom := Fin 6, marginLeft := Fin 3,
       marginRight := Fin 5, paddingTop := Fin 4, paddingRight := Fin 4,
       paddingBottom := Fin 4, paddingLeft := Fin 4, borderTopWidth := Fin 1,
       resolvedStyle.borderRightWidth := Fin 1, borderBottomWidth := Fin 1,
       resolvedStyle.borderLeftWidth := Fin 1\<rparr>"

definition styles0 :: styles where
  "styles0 = \<lparr>xAxis = zeroStyle, yAxis = zeroStyle, xAxisPointer = zeroStyle,
     yAxisPointer = zeroStyle, xAxisPointerLabel = labelStyle0,
     yAxisPointerLabel = labelStyle0\<rparr>"

definition args0 :: args where
  "args0 = \<lparr>categoryAxisSort = None, categoryAxisMaxLabelCount = None, xAxisPointer = None,
     yAxisPointer = None, xAxisPointerLabel = None, yAxisPointerLabel = None,
     xAxisTooltip = None, yAxisTooltip = None, xAxisFormatter = None,
     yAxisFormatter = None\<rparr>"

definition layout0 :: layout where
  "layout0 = \<lparr>x = Fin 0, y = Fin 0, width = Fin 400, height = Fin 300, innerX = Fin 0,
     innerY = Fin 0, innerWidth = Fin 400, innerHeight = Fin 300, borderLeftWidth = Fin 0,
     borderRightWidth = Fin 0\<rparr>"

definition axisInfo0 :: axisInfo where
  "axisInfo0 = \<lparr>axisInfo.width = Fin 360, height = Some (Fin 20),
     labelMetrics = \<lparr>textMetrics.width = Fin 30, height = Fin 12\<rparr>, maxLabelWidth = Some (Fin 90),
     heightOverflow = None\<rparr>"



definition series0 :: "series list" where
  "series0 =
     [\<lparr>data = [\<lparr>name = ''pear'', value = Fin 3\<rparr>, \<lparr>name = ''apple'', value = Fin 5\<rparr>]\<rparr>,
      \<lparr>data = [\<lparr>name = ''apple'', value = Fin 1\<rparr>, \<lparr>name = ''fig'', value = Fin 2\<rparr>]\<rparr>]"


text \<open>A chart context whose X and Y pointers have type \<open>t\<close> and label position \<open>p\<close>.\<close>

definition pointerContext :: "string \<Rightarrow> string \<Rightarrow> chartContext" where
  "pointerContext t p =
     \<lparr>args = args0\<lparr>args.xAxisPointer := Some t, args.yAxisPointer := Some t,
                     args.xAxisPointerLabel := Some p, args.yAxisPointerLabel := Some p\<rparr>,
      styles = styles0\<rparr>"



text \<open>A store with a style, a layout, an axis configuration and a series array.\<close>

definition store0 :: "unit store" where
  "store0 = [StyleObject (), LayoutObject layout0, ConfigObject \<lparr>axisPointer = None\<rparr>,
             SeriesArray series0]"

section \<open>Properties\<close>

subsection \<open>Rounding to doubles\<close>

lemma bitlen_bounds: "0 < n \<Longrightarrow> 2 ^ (bitlen n - 1) \<le> n \<and> n < 2 ^ bitlen n"
proof (induction n rule: bitlen.induct)
  case (1 n)
  show ?case
  proof (cases "n div 2 = 0")
    case True
    with "1.prems" have "n = Suc 0" by (simp add: div_eq_0_iff)
    then show ?thesis by (simp add: bitlen.simps [of "Suc 0"] bitlen.simps [of 0])
  next
    case False
    then have pos: "0 < n div 2" by simp
    with "1.prems" "1.IH" have ih: "2 ^ (bitlen (n div 2) - 1) \<le> n div 2"
      "n div 2 < 2 ^ bitlen (n div 2)" by simp_all
    from pos have b1: "0 < bitlen (n div 2)" by (simp add: bitlen.simps [of "n div 2"])
    from "1.prems" have bn: "bitlen n = Suc (bitlen (n div 2))" by (simp add: bitlen.simps [of n])
    from b1 have "(2::nat) ^ bitlen (n div 2) = 2 * 2 ^ (bitlen (n div 2) - 1)"
      by (cases "bitlen (n div 2)") simp_all
    with ih(1) have "(2::nat) ^ bitlen (n div 2) \<le> 2 * (n div 2)" by simp
    then have lo: "(2::nat) ^ bitlen (n div 2) \<le> n" by arith
    from ih(2) have "n < 2 * 2 ^ bitlen (n div 2)" by arith
    with lo bn show ?thesis by simp
  qed
qed

lemma ilog2_le:
  assumes "0 < q"
  shows "2 powi (ilog2 q) \<le> q"
proof (cases "1 \<le> q")
  case True
  let ?b = "bitlen (nat \<lfloor>q\<rfloor>)"
  from True have f1: "1 \<le> \<lfloor>q\<rfloor>" by simp
  then have n: "0 < nat \<lfloor>q\<rfloor>" by simp
  from bitlen_bounds [OF n] have b: "2 ^ (?b - 1) \<le> nat \<lfloor>q\<rfloor>" by simp
  from n have bp: "0 < ?b" by (simp add: bitlen.simps [of "nat \<lfloor>q\<rfloor>"])
  from True have "ilog2 q = int ?b - 1" by (simp only: ilog2_def if_True)
  also from bp have "\<dots> = int (?b - 1)" by simp
  finally have "(2::rat) powi (ilog2 q) = 2 powi int (?b - 1)" by (rule arg_cong)
  also have "\<dots> = 2 ^ (?b - 1)" by (rule power_int_of_nat)
  also have "\<dots> = of_nat (2 ^ (?b - 1))" by simp
  also from b have "\<dots> \<le> of_nat (nat \<lfloor>q\<rfloor>)" by (simp only: of_nat_le_iff)
  also from f1 have "\<dots> = of_int \<lfloor>q\<rfloor>" by simp
  also have "\<dots> \<le> q" by simp
  finally show ?thesis .
next
  case False
  define c where "c = \<lceil>1 / q\<rceil>"
  let ?j = "bitlen (nat (c - 1))"
  from False assms have q1: "1 < 1 / q" by simp
  then have c2: "2 \<le> c" unfolding c_def by linarith
  then have n: "0 < nat (c - 1)" by simp
  from bitlen_bounds [OF n] have "nat (c - 1) < 2 ^ ?j" by simp
  then have "int (nat (c - 1)) < int (2 ^ ?j)" by (simp only: of_nat_less_iff)
  moreover from c2 have "int (nat (c - 1)) = c - 1" by simp
  ultimately have "c - 1 < int (2 ^ ?j)" by (simp only:)
  then have "c \<le> 2 ^ ?j" by simp
  then have "(of_int c :: rat) \<le> of_int (2 ^ ?j)" by (simp only: of_int_le_iff)
  moreover have "1 / q \<le> of_int c" unfolding c_def by (rule le_of_int_ceiling)
  ultimately have "1 / q \<le> of_int (2 ^ ?j)" by (rule order_trans [rotated])
  then have "1 / q \<le> 2 ^ ?j" by simp
  with assms have "1 \<le> 2 ^ ?j * q" by (simp add: pos_divide_le_eq)
  then have le: "inverse (2 ^ ?j) \<le> q" by (simp add: inverse_eq_divide pos_divide_le_eq mult.commute)
  from False have "ilog2 q = - int ?j" by (simp only: ilog2_def if_False c_def)
  then have "(2::rat) powi (ilog2 q) = 2 powi (- int ?j)" by (rule arg_cong)
  also have "\<dots> = inverse (2 powi int ?j)" by (rule power_int_minus)
  also have "\<dots> = inverse (2 ^ ?j)" by (simp only: power_int_of_nat)
  finally show ?thesis using le by simp
qed

lemma power_int_numeral_1024: "(2::rat) powi 1024 = 2 ^ 1024"
  using power_int_of_nat [of "2::rat" 1024] by (simp only: of_nat_numeral)

lemma roundHalfEven_of_int: "roundHalfEven (of_int i) = i"
  by (simp add: roundHalfEven_def)

lemma roundDouble_exact:
  assumes m: "\<bar>m\<bar> < 2 ^ 53" and k: "- 1074 \<le> k" "k \<le> 971"
  shows "roundDouble (of_int m * 2 powi k) = Fin (of_int m * 2 powi k)"
proof (cases "m = 0")
  case True
  then show ?thesis by (simp add: roundDouble_def)
next
  case False
  let ?q = "of_int m * (2::rat) powi k"
  let ?a = "of_int \<bar>m\<bar> * (2::rat) powi k"
  have p: "(0::rat) < 2 powi k" by simp
  from False have q0: "?q \<noteq> 0" by simp
  have a: "\<bar>?q\<bar> = ?a" by (simp add: abs_mult)
  from False have apos: "0 < ?a" by simp
  from m have "(of_int \<bar>m\<bar> :: rat) < of_int (2 ^ 53)" by (simp only: of_int_less_iff)
  then have "(of_int \<bar>m\<bar> :: rat) < 2 powi 53" by simp
  then have "?a < 2 powi 53 * 2 powi k" using p by (simp only: mult_strict_right_mono)
  also have "\<dots> = 2 powi (53 + k)" by (simp add: power_int_add)
  finally have ub: "?a < 2 powi (53 + k)" .
  from ilog2_le [OF apos] ub have "(2::rat) powi (ilog2 ?a) < 2 powi (53 + k)" by simp
  have e: "ilog2 ?a < 53 + k"
  proof (rule ccontr)
    assume "\<not> ilog2 ?a < 53 + k"
    then have "53 + k \<le> ilog2 ?a" by simp
    then have "(2::rat) powi (53 + k) \<le> 2 powi (ilog2 ?a)"
      by (rule power_int_increasing) simp
    with \<open>(2::rat) powi (ilog2 ?a) < 2 powi (53 + k)\<close> show False by simp
  qed
  define k' where "k' = max (ilog2 ?a - 52) (- 1074)"
  from e k(1) have kk: "k' \<le> k" by (simp add: k'_def)
  then obtain d where d: "k = k' + int d" by (metis nat_le_iff_add zle_iff_zadd)
  have "?a / 2 powi k' = of_int \<bar>m\<bar> * 2 powi (k - k')"
    by (simp add: power_int_diff)
  also have "\<dots> = of_int (\<bar>m\<bar> * 2 ^ d)" using d by simp
  finally have sc: "?a / 2 powi k' = of_int (\<bar>m\<bar> * 2 ^ d)" .
  have v: "of_int (roundHalfEven (?a / 2 powi k')) * (2::rat) powi k' = ?a"
  proof -
    have "of_int (roundHalfEven (?a / 2 powi k')) * (2::rat) powi k'
            = of_int (\<bar>m\<bar> * 2 ^ d) * 2 powi k'"
      by (simp only: sc roundHalfEven_of_int)
    also have "\<dots> = of_int \<bar>m\<bar> * (2 powi int d * 2 powi k')" by simp
    also have "\<dots> = of_int \<bar>m\<bar> * 2 powi (int d + k')" by (simp add: power_int_add)
    also have "\<dots> = ?a" using d by (simp add: add.commute)
    finally show ?thesis .
  qed
  have "?a < 2 powi (53 + k)" by (rule ub)
  also have "\<dots> \<le> 2 powi 1024" using k(2) by (intro power_int_increasing) simp_all
  also have "\<dots> = 2 ^ 1024" by (rule power_int_numeral_1024)
  finally have lt: "\<not> 2 ^ 1024 \<le> ?a" by (simp only: not_le)
  show ?thesis
  proof (cases "0 < m")
    case True
    then have "0 < ?q" by simp
    moreover from True have "?a = ?q" by simp
    ultimately show ?thesis
      using q0 lt v unfolding roundDouble_def a Let_def k'_def [symmetric] by simp
  next
    case neg: False
    with False have "m < 0" by simp
    then have "(of_int m :: rat) < 0" by simp
    then have "?q < 0" using p by (rule mult_neg_pos)
    then have "\<not> 0 < ?q" by simp
    moreover from \<open>m < 0\<close> have "- ?a = ?q" by simp
    ultimately show ?thesis
      using q0 lt v unfolding roundDouble_def a Let_def k'_def [symmetric] by simp
  qed
qed

lemma ilog2_gt:
  assumes "0 < q"
  shows "q < 2 powi (ilog2 q + 1)"
proof (cases "1 \<le> q")
  case True
  let ?b = "bitlen (nat \<lfloor>q\<rfloor>)"
  from True have f1: "1 \<le> \<lfloor>q\<rfloor>" by simp
  then have n: "0 < nat \<lfloor>q\<rfloor>" by simp
  from bitlen_bounds [OF n] have "nat \<lfloor>q\<rfloor> < 2 ^ ?b" by simp
  then have "int (nat \<lfloor>q\<rfloor>) < int (2 ^ ?b)" by (simp only: of_nat_less_iff)
  moreover from f1 have "int (nat \<lfloor>q\<rfloor>) = \<lfloor>q\<rfloor>" by simp
  ultimately have "\<lfloor>q\<rfloor> < int (2 ^ ?b)" by (simp only:)
  then have "\<lfloor>q\<rfloor> + 1 \<le> int (2 ^ ?b)" by simp
  then have "(of_int (\<lfloor>q\<rfloor> + 1) :: rat) \<le> of_int (int (2 ^ ?b))" by (simp only: of_int_le_iff)
  moreover have "q < of_int (\<lfloor>q\<rfloor> + 1)" by linarith
  ultimately have "q < of_int (int (2 ^ ?b))" by (rule less_le_trans [rotated])
  then have "q < 2 ^ ?b" by simp
  also have "\<dots> = 2 powi int ?b" by (simp only: power_int_of_nat)
  also from True have "int ?b = ilog2 q + 1" by (simp add: ilog2_def)
  finally show ?thesis .
next
  case False
  define c where "c = \<lceil>1 / q\<rceil>"
  let ?j = "bitlen (nat (c - 1))"
  from False assms have q1: "1 < 1 / q" by simp
  then have c2: "2 \<le> c" unfolding c_def by linarith
  then have n: "0 < nat (c - 1)" by simp
  from n have jp: "0 < ?j" by (simp add: bitlen.simps [of "nat (c - 1)"])
  from bitlen_bounds [OF n] have "2 ^ (?j - 1) \<le> nat (c - 1)" by simp
  then have "int (2 ^ (?j - 1)) \<le> int (nat (c - 1))" by (simp only: of_nat_le_iff)
  moreover from c2 have "int (nat (c - 1)) = c - 1" by simp
  ultimately have "int (2 ^ (?j - 1)) \<le> c - 1" by (simp only:)
  then have "(of_int (int (2 ^ (?j - 1))) :: rat) \<le> of_int (c - 1)" by (simp only: of_int_le_iff)
  moreover have "of_int (c - 1) < 1 / q" unfolding c_def by linarith
  ultimately have "(of_int (int (2 ^ (?j - 1))) :: rat) < 1 / q" by (rule le_less_trans)
  then have "2 ^ (?j - 1) < 1 / q" by simp
  with assms have "2 ^ (?j - 1) * q < 1" by (simp add: pos_less_divide_eq)
  then have lt: "q < inverse (2 ^ (?j - 1))"
    by (simp add: inverse_eq_divide pos_less_divide_eq mult.commute)
  from False have "ilog2 q + 1 = - int ?j + 1" by (simp only: ilog2_def if_False c_def)
  also from jp have "\<dots> = - int (?j - 1)" by simp
  finally have "(2::rat) powi (ilog2 q + 1) = 2 powi (- int (?j - 1))" by (rule arg_cong)
  also have "\<dots> = inverse (2 powi int (?j - 1))" by (rule power_int_minus)
  also have "\<dots> = inverse (2 ^ (?j - 1))" by (simp only: power_int_of_nat)
  finally show ?thesis using lt by simp
qed

lemma powi_less_imp_less:
  assumes "(2::rat) powi a < 2 powi b"
  shows "a < b"
proof (rule ccontr)
  assume "\<not> a < b"
  then have "b \<le> a" by simp
  then have "(2::rat) powi b \<le> 2 powi a" by (rule power_int_increasing) simp
  with assms show False by simp
qed

lemma ilog2_unique:
  assumes "2 powi e \<le> q" "q < 2 powi (e + 1)"
  shows "ilog2 q = e"
proof -
  have "(0::rat) < 2 powi e" by simp
  from this assms(1) have q: "0 < q" by (rule less_le_trans)
  from assms(1) ilog2_gt [OF q] have "(2::rat) powi e < 2 powi (ilog2 q + 1)"
    by (rule le_less_trans)
  then have "e < ilog2 q + 1" by (rule powi_less_imp_less)
  moreover from ilog2_le [OF q] assms(2) have "(2::rat) powi (ilog2 q) < 2 powi (e + 1)"
    by (rule le_less_trans)
  then have "ilog2 q < e + 1" by (rule powi_less_imp_less)
  ultimately show ?thesis by simp
qed

lemma roundDouble_pos:
  assumes "2 powi e \<le> q" "q < 2 powi (e + 1)"
    and "k = max (e - 52) (- 1074)"
    and "r = roundHalfEven (q / 2 powi k)"
  shows "roundDouble q =
           (if 2 ^ 1024 \<le> of_int r * (2::rat) powi k then PInf else Fin (of_int r * 2 powi k))"
proof -
  have "(0::rat) < 2 powi e" by simp
  from this assms(1) have q: "0 < q" by (rule less_le_trans)
  then have a: "\<bar>q\<bar> = q" "q \<noteq> 0" by simp_all
  show ?thesis
    unfolding roundDouble_def a Let_def ilog2_unique [OF assms(1,2)] assms(3) [symmetric]
      assms(4) [symmetric]
    using q a(2) by (simp only: if_True if_False)
qed

lemma floor_rat_numeral:
  "\<lfloor>(numeral a :: rat) / numeral b\<rfloor> = numeral a div numeral b"
  using floor_divide_of_int_eq [of "numeral a" "numeral b", where ?'a = rat] by simp

lemma roundDouble_int: "\<bar>m\<bar> < 2 ^ 53 \<Longrightarrow> roundDouble (of_int m) = Fin (of_int m)"
  using roundDouble_exact [of m 0] by simp

text \<open>
  Four values of \<open>roundDouble\<close>: the double next to \<open>0.07\<close>, one hundred times that
  double, the integer \<open>2 ^ 53 + 1\<close>, which lies between two doubles, and a number beyond
  the range of the doubles.
\<close>

lemma roundDouble_7_100: "roundDouble (7 / 100) = Fin (1261007895663739 / 18014398509481984)"
  by (subst roundDouble_pos [where e = "- 4" and k = "- 56" and r = 5044031582654956])
     (simp_all add: roundHalfEven_def Let_def floor_rat_numeral)

lemma roundDouble_7_100_times_100:
  "roundDouble (1261007895663739 / 18014398509481984 * 100) = Fin (7 + 1 / 2 ^ 50)"
  by (subst roundDouble_pos [where e = 2 and k = "- 50" and r = 7881299347898369])
     (simp_all add: roundHalfEven_def Let_def floor_rat_numeral)

lemma roundDouble_2_53_plus_1: "roundDouble 9007199254740993 = Fin 9007199254740992"
  by (subst roundDouble_pos [where e = 53 and k = 1 and r = 4503599627370496])
     (simp_all add: roundHalfEven_def Let_def floor_rat_numeral)

lemma roundDouble_overflow: "roundDouble (10 ^ 400) = PInf"
  by (subst roundDouble_pos [where e = 1328 and k = 1276
        and r = "roundHalfEven (10 ^ 400 / 2 powi 1276)"])
     (simp_all add: roundHalfEven_def Let_def floor_rat_numeral)

subsection \<open>What the patterns match\<close>

lemma endsWith_iff: "endsWith s t \<longleftrightarrow> (\<exists>p. s = p @ t)"
proof
  assume "endsWith s t"
  then have "s = take (length s - length t) s @ t"
    by (metis append_take_drop_id endsWith_def)
  then show "\<exists>p. s = p @ t" ..
next
  assume "\<exists>p. s = p @ t"
  then show "endsWith s t" by (auto simp: endsWith_def)
qed

lemma nullable_lang: "nullable r \<longleftrightarrow> [] \<in> lang r"
  by (induction r) (auto simp: conc_def intro: rep.rep_nil)

lemma rep_cons_split:
  assumes "q \<in> rep A" "q = c # w"
  shows "\<exists>u v. w = u @ v \<and> c # u \<in> A \<and> v \<in> rep A"
  using assms
proof (induction arbitrary: w rule: rep.induct)
  case rep_nil
  then show ?case by simp
next
  case (rep_app u v)
  show ?case
  proof (cases u)
    case Nil
    with rep_app show ?thesis by simp
  next
    case (Cons d u')
    with rep_app.prems have "d = c" "w = u' @ v" by simp_all
    with Cons rep_app.hyps show ?thesis by blast
  qed
qed

lemma rep_cons_iff:
  "c # w \<in> rep A \<longleftrightarrow> (\<exists>u v. w = u @ v \<and> c # u \<in> A \<and> v \<in> rep A)"
proof
  assume "c # w \<in> rep A"
  then show "\<exists>u v. w = u @ v \<and> c # u \<in> A \<and> v \<in> rep A"
    by (rule rep_cons_split) simp
next
  assume "\<exists>u v. w = u @ v \<and> c # u \<in> A \<and> v \<in> rep A"
  then obtain u v where "w = u @ v" "c # u \<in> A" "v \<in> rep A" by blast
  then show "c # w \<in> rep A" using rep.rep_app [of "c # u" A v] by simp
qed

lemma conc_cons_iff:
  "c # w \<in> conc A B \<longleftrightarrow>
     ([] \<in> A \<and> c # w \<in> B) \<or> (\<exists>u v. w = u @ v \<and> c # u \<in> A \<and> v \<in> B)"
  unfolding conc_def by (auto simp: Cons_eq_append_conv)

lemma lang_deriv: "w \<in> lang (deriv c r) \<longleftrightarrow> c # w \<in> lang r"
proof (induction r arbitrary: w)
  case (Cat r s)
  then show ?case
    by (auto simp: conc_cons_iff nullable_lang) (auto simp: conc_def)
next
  case (Many r)
  then show ?case by (auto simp: rep_cons_iff conc_def)
next
  case (Many1 r)
  then show ?case
    by (auto simp: conc_cons_iff rep_cons_iff) (auto simp: conc_def)
qed auto

lemma test_lang: "test r s \<longleftrightarrow> s \<in> lang r"
  unfolding test_def
  by (induction s arbitrary: r) (simp_all add: nullable_lang lang_deriv)


lemma concI: "u \<in> A \<Longrightarrow> v \<in> B \<Longrightarrow> u @ v \<in> conc A B"
  unfolding conc_def by blast

lemma digits_rep: "list_all isDigit ds \<Longrightarrow> ds \<in> rep (lang DigitClass)"
proof (induction ds)
  case Nil
  show ?case by (rule rep.rep_nil)
next
  case (Cons c ds)
  then have "[c] \<in> lang DigitClass" "ds \<in> rep (lang DigitClass)" by simp_all
  then have "[c] @ ds \<in> rep (lang DigitClass)" by (rule rep.rep_app)
  then show ?case by simp
qed

lemma digits_many1:
  assumes "ds \<noteq> []" "list_all isDigit ds"
  shows "ds \<in> lang (Many1 DigitClass)"
proof -
  from assms obtain c cs where ds: "ds = c # cs" "isDigit c" "list_all isDigit cs"
    by (cases ds) auto
  from ds(2) have "[c] \<in> lang DigitClass" by simp
  moreover from ds(3) have "cs \<in> rep (lang DigitClass)" by (rule digits_rep)
  ultimately have "[c] @ cs \<in> conc (lang DigitClass) (rep (lang DigitClass))" by (rule concI)
  with ds(1) show ?thesis by simp
qed

lemma numeral_then:
  assumes "numeralParts sg ds dot fs" "t \<in> lang r"
  shows "sg @ ds @ dot @ fs @ t
           \<in> lang (Cat (Opt (Chr CHR ''-'')) (Cat (Many1 DigitClass) (Cat (Opt (Chr CHR ''.''))
                (Cat (Many DigitClass) r))))"
proof -
  from assms(1) have s: "sg \<in> lang (Opt (Chr CHR ''-''))"
    by (auto simp: numeralParts_def)
  from assms(1) have d: "ds \<in> lang (Many1 DigitClass)"
    by (intro digits_many1) (simp_all add: numeralParts_def)
  from assms(1) have p: "dot \<in> lang (Opt (Chr CHR ''.''))"
    by (auto simp: numeralParts_def)
  from assms(1) have "fs \<in> rep (lang DigitClass)"
    by (intro digits_rep) (simp add: numeralParts_def)
  then have "fs @ t \<in> conc (rep (lang DigitClass)) (lang r)" using assms(2) by (rule concI)
  then have "fs @ t \<in> lang (Cat (Many DigitClass) r)" by simp
  with p have "dot @ fs @ t \<in> conc (lang (Opt (Chr CHR ''.''))) (lang (Cat (Many DigitClass) r))"
    by (rule concI)
  then have "dot @ fs @ t \<in> lang (Cat (Opt (Chr CHR ''.'')) (Cat (Many DigitClass) r))"
    by (simp only: lang.simps)
  with d have "ds @ dot @ fs @ t \<in> conc (lang (Many1 DigitClass))
      (lang (Cat (Opt (Chr CHR ''.'')) (Cat (Many DigitClass) r)))"
    by (rule concI)
  then have "ds @ dot @ fs @ t \<in> lang (Cat (Many1 DigitClass) (Cat (Opt (Chr CHR ''.''))
                (Cat (Many DigitClass) r)))"
    by (simp only: lang.simps)
  with s have "sg @ ds @ dot @ fs @ t \<in> conc (lang (Opt (Chr CHR ''-'')))
      (lang (Cat (Many1 DigitClass) (Cat (Opt (Chr CHR ''.'')) (Cat (Many DigitClass) r))))"
    by (rule concI)
  then show ?thesis by (simp only: lang.simps)
qed

lemma pixel_token_test: "numeralParts sg ds dot fs \<Longrightarrow> test isPixelDimension (sg @ ds @ dot @ fs @ ''px'')"
  unfolding test_lang isPixelDimension_def
  by (erule numeral_then) (auto simp: conc_def)

lemma rep_percent: "[CHR ''%''] \<in> lang (Many1 (Chr CHR ''%''))"
  using concI [of "[CHR ''%'']" "{[CHR ''%'']}" "[]" "rep {[CHR ''%'']}"]
  by (simp add: rep.rep_nil)

lemma percent_token_test: "numeralParts sg ds dot fs \<Longrightarrow> test isPercentDimension (sg @ ds @ dot @ fs @ ''%'')"
  unfolding test_lang isPercentDimension_def
  by (erule numeral_then) (rule rep_percent)

lemma pixel_lang_suffix: "s \<in> lang isPixelDimension \<Longrightarrow> \<exists>u. s = u @ ''px''"
  unfolding isPixelDimension_def by (auto simp: conc_def)

lemma percent_not_pixel: "\<not> test isPixelDimension (u @ ''%'')"
proof
  assume "test isPixelDimension (u @ ''%'')"
  then obtain w where "u @ ''%'' = w @ ''px''"
    using pixel_lang_suffix test_lang by blast
  then have "last (u @ ''%'') = last (w @ ''px'')" by simp
  then show False by simp
qed

lemma rep_digits: "w \<in> rep (lang DigitClass) \<Longrightarrow> list_all isDigit w"
  by (induction rule: rep.induct) auto

lemma many1_digits:
  assumes "w \<in> lang (Many1 DigitClass)"
  shows "w \<noteq> [] \<and> list_all isDigit w"
proof -
  from assms obtain u v where "w = u @ v" "u \<in> lang DigitClass" "v \<in> rep (lang DigitClass)"
    unfolding lang.simps(9) conc_def by blast
  moreover from this(3) have "list_all isDigit v" by (rule rep_digits)
  ultimately show ?thesis by auto
qed

lemma numeral_shape:
  assumes "s \<in> lang (Cat (Opt (Chr CHR ''-'')) (Cat (Many1 DigitClass) (Cat (Opt (Chr CHR ''.''))
                (Cat (Many DigitClass) r))))"
  shows "\<exists>sg ds dot fs t. numeralParts sg ds dot fs \<and> t \<in> lang r \<and> s = sg @ ds @ dot @ fs @ t"
proof -
  from assms obtain a b c d t where s: "s = a @ b @ c @ d @ t"
    and a: "a \<in> lang (Opt (Chr CHR ''-''))" and b: "b \<in> lang (Many1 DigitClass)"
    and c: "c \<in> lang (Opt (Chr CHR ''.''))" and d: "d \<in> rep (lang DigitClass)"
    and t: "t \<in> lang r"
    unfolding lang.simps(6) conc_def lang.simps(8) by blast
  from b have b': "b \<noteq> []" "list_all isDigit b" by (simp_all add: many1_digits)
  from d have d': "list_all isDigit d" by (rule rep_digits)
  from a have a': "a = [] \<or> a = ''-''" by auto
  from c have "c = [] \<or> c = ''.''" by auto
  then show ?thesis
  proof
    assume "c = []"
    with a' b' d' have "numeralParts a (b @ d) [] []" by (simp add: numeralParts_def)
    moreover from s \<open>c = []\<close> have "s = a @ (b @ d) @ [] @ [] @ t" by simp
    ultimately show ?thesis using t by blast
  next
    assume "c = ''.''"
    with a' b' d' have "numeralParts a b c d" by (simp add: numeralParts_def)
    with s t show ?thesis by blast
  qed
qed

lemma pixel_token_shape:
  assumes "test isPixelDimension v"
  shows "\<exists>sg ds dot fs. numeralParts sg ds dot fs \<and> v = sg @ ds @ dot @ fs @ ''px''"
proof -
  from assms have "v \<in> lang isPixelDimension" by (simp add: test_lang)
  then obtain sg ds dot fs t where "numeralParts sg ds dot fs"
    "t \<in> lang (Cat (Chr CHR ''p'') (Chr CHR ''x''))" "v = sg @ ds @ dot @ fs @ t"
    unfolding isPixelDimension_def using numeral_shape by blast
  moreover from this(2) have "t = ''px''" by (auto simp: conc_def)
  ultimately show ?thesis by blast
qed

lemma rep_percent_shape: "w \<in> rep {[CHR ''%'']} \<Longrightarrow> \<exists>n. w = replicate n CHR ''%''"
proof (induction rule: rep.induct)
  case rep_nil
  have "[] = replicate 0 CHR ''%''" by simp
  then show ?case ..
next
  case (rep_app u v)
  then obtain n where "v = replicate n CHR ''%''" by blast
  with rep_app.hyps(1) have "u @ v = replicate (Suc n) CHR ''%''" by simp
  then show ?case ..
qed

lemma percent_token_shape:
  assumes "test isPercentDimension v"
  shows "\<exists>sg ds dot fs n. numeralParts sg ds dot fs \<and>
           v = sg @ ds @ dot @ fs @ replicate (Suc n) CHR ''%''"
proof -
  from assms have "v \<in> lang isPercentDimension" by (simp add: test_lang)
  then obtain sg ds dot fs t where p: "numeralParts sg ds dot fs"
    "t \<in> lang (Many1 (Chr CHR ''%''))" "v = sg @ ds @ dot @ fs @ t"
    unfolding isPercentDimension_def using numeral_shape by blast
  from p(2) obtain w where "t = CHR ''%'' # w" "w \<in> rep {[CHR ''%'']}"
    by (auto simp: conc_def)
  then obtain n where "t = replicate (Suc n) CHR ''%''"
    using rep_percent_shape by fastforce
  with p show ?thesis by blast
qed

lemma isDigit_simps [simp]: "\<not> isDigit CHR ''.''" "\<not> isDigit CHR ''-''" "\<not> isDigit CHR ''+''"
  by (simp_all add: isDigit_def)

lemma takeWhile_all: "list_all P xs \<Longrightarrow> takeWhile P xs = xs"
  by (induction xs) auto

lemma dropWhile_all: "list_all P xs \<Longrightarrow> dropWhile P xs = []"
  by (induction xs) auto

lemma scan_unsigned:
  assumes "ds \<noteq> []" "list_all isDigit ds" "list_all isDigit fs" "dot = ''.'' \<or> (dot = [] \<and> fs = [])"
  shows "takeWhile isDigit (ds @ dot @ fs) = ds" "dropWhile isDigit (ds @ dot @ fs) = dot @ fs"
  using assms by (auto simp: takeWhile_append dropWhile_append list_all_iff takeWhile_all dropWhile_all)

lemma scanDecimal_numeral:
  assumes "numeralParts sg ds dot fs"
  shows "scanDecimal (sg @ ds @ dot @ fs) = Some (decimalValue sg ds fs, [])"
proof -
  from assms have ds: "ds \<noteq> []" "list_all isDigit ds" and fs: "list_all isDigit fs"
    and dot: "dot = ''.'' \<or> (dot = [] \<and> fs = [])" and sg: "sg = [] \<or> sg = ''-''"
    by (simp_all add: numeralParts_def)
  obtain c cs where c: "ds = c # cs" "isDigit c" using ds by (cases ds) auto
  then have nc: "c \<noteq> CHR ''-''" "c \<noteq> CHR ''+''" by auto
  note sc = scan_unsigned [OF ds fs dot]
  from sg show ?thesis
  proof
    assume "sg = []"
    then show ?thesis
      using sc dot fs nc c(1) ds
      by (auto simp: scanDecimal_def decimalValue_def Let_def takeWhile_all dropWhile_all
               list_all_iff split: list.splits)
  next
    assume "sg = ''-''"
    then show ?thesis
      using sc dot fs ds
      by (auto simp: scanDecimal_def decimalValue_def Let_def takeWhile_all dropWhile_all
               list_all_iff split: list.splits)
  qed
qed

lemma slice0_px: "slice0 (sg @ ds @ dot @ fs @ ''px'') 2 = sg @ ds @ dot @ fs"
  by (simp add: slice0_def)

lemma slice0_percent: "slice0 (sg @ ds @ dot @ fs @ ''%'') 1 = sg @ ds @ dot @ fs"
  by (simp add: slice0_def)

lemma parseFloat_numeral:
  "numeralParts sg ds dot fs \<Longrightarrow>
     parseFloat (sg @ ds @ dot @ fs) = roundDouble (decimalValue sg ds fs)"
  by (simp add: parseFloat_def scanDecimal_numeral)

lemma toNumber_numeral:
  "numeralParts sg ds dot fs \<Longrightarrow>
     toNumber (sg @ ds @ dot @ fs) = roundDouble (decimalValue sg ds fs)"
  by (auto simp: toNumber_def scanDecimal_numeral numeralParts_def)

subsection \<open>Pixel tokens, percent tokens and the values passed through\<close>

lemma resolveStyle_pixel_value:
  assumes "parseCssStyleValue (formatCssStyleValue style) property
             = Some (sg @ ds @ dot @ fs @ ''px'')"
    and "numeralParts sg ds dot fs"
  shows "resolveStyle formatCssStyleValue parseCssStyleValue style context property
           = Some (VNum (roundDouble (decimalValue sg ds fs)))"
  using assms
  by (simp add: resolveStyle_def mapValues_def pixel_token_test parseFloat_numeral slice0_px)

lemma resolveStyle_percent_value:
  assumes "parseCssStyleValue (formatCssStyleValue style) property
             = Some (sg @ ds @ dot @ fs @ ''%'')"
    and "numeralParts sg ds dot fs"
  shows "resolveStyle formatCssStyleValue parseCssStyleValue style context property
           = Some (VNum (fmul (fdiv (roundDouble (decimalValue sg ds fs)) (Fin 100))
               (case context of
                  None \<Rightarrow> Fin 1
                | Some c \<Rightarrow>
                    (case (if endsWith property ''Top'' \<or> endsWith property ''Bottom''
                           then sizingContext.height c else sizingContext.width c) of
                       None \<Rightarrow> Fin 1
                     | Some m \<Rightarrow> m))))"
proof -
  note sl = slice0_percent [of sg ds dot fs]
  have np: "\<not> test isPixelDimension (sg @ ds @ dot @ fs @ ''%'')"
    using percent_not_pixel [of "sg @ ds @ dot @ fs"] by simp
  from assms np sl show ?thesis
    by (simp add: resolveStyle_def mapValues_def percent_token_test toNumber_numeral
        resolvePercentDimension_def contextHeight_def contextWidth_def Let_def
        split: option.splits)
qed

lemma decimalValue_examples:
  "decimalValue [] ''5'' [] = 5"
  "decimalValue [] ''7'' [] = 7"
  "decimalValue ''-'' ''12'' ''5'' = - 25 / 2"
  "decimalValue [] ''9007199254740993'' [] = 9007199254740993"
  by (simp_all add: decimalValue_def digitsVal_def digitVal_def)

lemma numeralParts_examples:
  "numeralParts [] ''5'' [] []"
  "numeralParts [] ''7'' [] []"
  "numeralParts ''-'' ''12'' ''.'' ''5''"
  "numeralParts [] ''9007199254740993'' [] []"
  by (simp_all add: numeralParts_def isDigit_def)

lemma roundDouble_5_100: "roundDouble (5 / 100) = Fin (3602879701896397 / 72057594037927936)"
  by (subst roundDouble_pos [where e = "- 5" and k = "- 57" and r = 7205759403792794])
     (simp_all add: roundHalfEven_def Let_def floor_rat_numeral)

lemma roundDouble_5_100_times_100:
  "roundDouble (3602879701896397 / 72057594037927936 * 100) = Fin 5"
  by (subst roundDouble_pos [where e = 2 and k = "- 50" and r = 5629499534213120])
     (simp_all add: roundHalfEven_def Let_def floor_rat_numeral)

lemma percent_5_of_100: "fmul (fdiv (roundDouble 5) (Fin 100)) (Fin 100) = Fin 5"
proof -
  have "roundDouble 5 = Fin 5" using roundDouble_int [of 5] by simp
  then have "fdiv (roundDouble 5) (Fin 100) = roundDouble (5 / 100)"
    by (simp add: fdiv_def toDouble_def)
  then show ?thesis
    by (simp only: roundDouble_5_100 fmul_def jmul.simps toDouble_def jsnum.case
        roundDouble_5_100_times_100)
qed

lemma percent_7_of_100: "fmul (fdiv (roundDouble 7) (Fin 100)) (Fin 100) = Fin (7 + 1 / 2 ^ 50)"
proof -
  have "roundDouble 7 = Fin 7" using roundDouble_int [of 7] by simp
  then have "fdiv (roundDouble 7) (Fin 100) = roundDouble (7 / 100)"
    by (simp add: fdiv_def toDouble_def)
  then show ?thesis
    by (simp only: roundDouble_7_100 fmul_def jmul.simps toDouble_def jsnum.case
        roundDouble_7_100_times_100)
qed

text \<open>
  C2, as amended. A property whose parsed value is a pixel token \<open>"<n>px"\<close> resolves, for
  every sizing context and for none, to the double nearest to \<open>n\<close> (an infinity when
  \<open>n\<close> is beyond the range of the doubles); that is \<open>n\<close> itself whenever \<open>n\<close> is a double,
  a number \<open>m * 2 powi k\<close> with \<open>\<bar>m\<bar> < 2 ^ 53\<close> and \<open>- 1074 \<le> k \<le> 971\<close>.
\<close>

theorem resolveStyle_pixel:
  assumes "parseCssStyleValue (formatCssStyleValue style) property
             = Some (sg @ ds @ dot @ fs @ ''px'')"
    and "numeralParts sg ds dot fs"
  shows "resolveStyle formatCssStyleValue parseCssStyleValue style context property
           = Some (VNum (roundDouble (decimalValue sg ds fs))) \<and>
         (decimalValue sg ds fs = of_int m * 2 powi k \<and> \<bar>m\<bar> < 2 ^ 53 \<and>
          - 1074 \<le> k \<and> k \<le> 971 \<longrightarrow>
            resolveStyle formatCssStyleValue parseCssStyleValue style context property
              = Some (VNum (Fin (decimalValue sg ds fs))))"
proof (intro conjI impI)
  show v: "resolveStyle formatCssStyleValue parseCssStyleValue style context property
           = Some (VNum (roundDouble (decimalValue sg ds fs)))"
    using assms by (rule resolveStyle_pixel_value)
  assume d: "decimalValue sg ds fs = of_int m * 2 powi k \<and> \<bar>m\<bar> < 2 ^ 53 \<and>
          - 1074 \<le> k \<and> k \<le> 971"
  then have "roundDouble (of_int m * 2 powi k) = Fin (of_int m * 2 powi k)"
    by (intro roundDouble_exact) simp_all
  with d have "roundDouble (decimalValue sg ds fs) = Fin (decimalValue sg ds fs)" by simp
  with v show "resolveStyle formatCssStyleValue parseCssStyleValue style context property
              = Some (VNum (Fin (decimalValue sg ds fs)))" by simp
qed

theorem resolveStyle_pixel_witness:
  "numeralParts ''-'' ''12'' ''.'' ''5'' \<and>
   decimalValue ''-'' ''12'' ''5'' = of_int (- 25) * 2 powi (- 1) \<and>
   resolveStyle (\<lambda>_. ''margin-top: -12.5px'') (\<lambda>_. [''marginTop'' \<mapsto> ''-12.5px'']) ()
     (Some \<lparr>sizingContext.width = Some (Fin 200), height = None\<rparr>) ''marginTop''
     = Some (VNum (Fin (- 25 / 2)))"
proof -
  let ?r = "resolveStyle (\<lambda>_. ''margin-top: -12.5px'') (\<lambda>_. [''marginTop'' \<mapsto> ''-12.5px'']) ()
     (Some \<lparr>sizingContext.width = Some (Fin 200), height = None\<rparr>) ''marginTop''"
  have h: "decimalValue ''-'' ''12'' ''5'' = of_int (- 25) * 2 powi (- 1) \<and>
      \<bar>- 25 :: int\<bar> < 2 ^ 53 \<and> - 1074 \<le> (- 1 :: int) \<and> (- 1 :: int) \<le> 971"
    by (simp add: decimalValue_examples)
  have "?r = Some (VNum (roundDouble (decimalValue ''-'' ''12'' ''5''))) \<and>
      (decimalValue ''-'' ''12'' ''5'' = of_int (- 25) * 2 powi (- 1) \<and>
       \<bar>- 25 :: int\<bar> < 2 ^ 53 \<and> - 1074 \<le> (- 1 :: int) \<and> (- 1 :: int) \<le> 971 \<longrightarrow>
         ?r = Some (VNum (Fin (decimalValue ''-'' ''12'' ''5''))))"
    by (rule resolveStyle_pixel [of "\<lambda>_. [''marginTop'' \<mapsto> ''-12.5px'']"
          "\<lambda>_. ''margin-top: -12.5px''" "()" "''marginTop''" "''-''" "''12''" "''.''" "''5''"
          "Some \<lparr>sizingContext.width = Some (Fin 200), height = None\<rparr>" "- 25" "- 1"])
       (simp_all add: numeralParts_examples)
  with h have "?r = Some (VNum (Fin (decimalValue ''-'' ''12'' ''5'')))" by blast
  then have "?r = Some (VNum (Fin (- 25 / 2)))" by (simp only: decimalValue_examples)
  with h numeralParts_examples(3) show ?thesis by blast
qed

text \<open>
  The token \<open>9007199254740993px\<close>, whose number is \<open>2 ^ 53 + 1\<close>, resolves to
  \<open>9007199254740992\<close>.
\<close>

theorem resolveStyle_pixel_counterexample:
  "resolveStyle (\<lambda>_. ''width: 9007199254740993px'')
     (\<lambda>_. [''width'' \<mapsto> ''9007199254740993px'']) () None ''width''
     = Some (VNum (Fin 9007199254740992)) \<and>
   decimalValue [] ''9007199254740993'' [] = 9007199254740993 \<and>
   Fin 9007199254740992 \<noteq> Fin (decimalValue [] ''9007199254740993'' [])"
  using resolveStyle_pixel_value [of "\<lambda>_. [''width'' \<mapsto> ''9007199254740993px'']"
      "\<lambda>_. ''width: 9007199254740993px''" "()" "''width''" "[]" "''9007199254740993''" "[]" "[]"
      None] numeralParts_examples(4)
  by (simp add: decimalValue_examples roundDouble_2_53_plus_1)

text \<open>
  C1, as amended. A property whose parsed value is a percent token \<open>"<p>%"\<close> resolves to
  the product, in doubles, of the quotient of \<open>p\<close> by \<open>100\<close>, in doubles, with the height
  of the context when the name of the property ends in \<open>Top\<close> or \<open>Bottom\<close>, and with its
  width otherwise; the factor is \<open>1\<close> when the context is absent or has no such field.
  The numeral, the quotient and the product are each rounded to the nearest double.
\<close>

theorem resolveStyle_percent:
  assumes "parseCssStyleValue (formatCssStyleValue style) property
             = Some (sg @ ds @ dot @ fs @ ''%'')"
    and "numeralParts sg ds dot fs"
  shows "resolveStyle formatCssStyleValue parseCssStyleValue style context property
           = Some (VNum (fmul (fdiv (roundDouble (decimalValue sg ds fs)) (Fin 100))
               (case context of
                  None \<Rightarrow> Fin 1
                | Some c \<Rightarrow>
                    (case (if endsWith property ''Top'' \<or> endsWith property ''Bottom''
                           then sizingContext.height c else sizingContext.width c) of
                       None \<Rightarrow> Fin 1
                     | Some m \<Rightarrow> m))))"
  using assms by (rule resolveStyle_percent_value)

theorem resolveStyle_percent_witness:
  "numeralParts [] ''5'' [] [] \<and>
   resolveStyle (\<lambda>_. ''margin-bottom: 5%'') (\<lambda>_. [''marginBottom'' \<mapsto> ''5%'']) ()
     (Some \<lparr>sizingContext.width = None, height = Some (Fin 100)\<rparr>) ''marginBottom''
     = Some (VNum (Fin 5))"
  using resolveStyle_percent [of "\<lambda>_. [''marginBottom'' \<mapsto> ''5%'']"
      "\<lambda>_. ''margin-bottom: 5%''" "()" "''marginBottom''" "[]" "''5''" "[]" "[]"
      "Some \<lparr>sizingContext.width = None, height = Some (Fin 100)\<rparr>"]
    numeralParts_examples(1)
  by (simp add: decimalValue_examples endsWith_def percent_5_of_100)

text \<open>
  Seven percent of a height of \<open>100\<close> is \<open>7 + 2 powi (- 50)\<close>, the double after \<open>7\<close>, and
  not \<open>7 / 100 * 100\<close>.
\<close>

theorem resolveStyle_percent_counterexample:
  "resolveStyle (\<lambda>_. ''margin-bottom: 7%'') (\<lambda>_. [''marginBottom'' \<mapsto> ''7%'']) ()
     (Some \<lparr>sizingContext.width = None, height = Some (Fin 100)\<rparr>) ''marginBottom''
     = Some (VNum (Fin (7 + 1 / 2 ^ 50))) \<and>
   Fin (7 + 1 / 2 ^ 50) \<noteq> Fin (decimalValue [] ''7'' [] / 100 * 100)"
  using resolveStyle_percent_value [of "\<lambda>_. [''marginBottom'' \<mapsto> ''7%'']"
      "\<lambda>_. ''margin-bottom: 7%''" "()" "''marginBottom''" "[]" "''7''" "[]" "[]"
      "Some \<lparr>sizingContext.width = None, height = Some (Fin 100)\<rparr>"]
    numeralParts_examples(2)
  by (simp add: decimalValue_examples endsWith_def percent_7_of_100)

text \<open>
  C8. A property whose parsed value matches neither the pixel pattern nor the percent
  pattern keeps that value, unchanged; the model of \<open>resolveStyle\<close> has no exception to
  raise, so a colour or a keyword is never rejected.
\<close>

theorem resolveStyle_passthrough:
  assumes "parseCssStyleValue (formatCssStyleValue style) property = Some v"
    and "\<not> test isPixelDimension v" and "\<not> test isPercentDimension v"
  shows "resolveStyle formatCssStyleValue parseCssStyleValue style context property
           = Some (VStr v)"
  using assms by (simp add: resolveStyle_def mapValues_def)

theorem resolveStyle_passthrough_witness:
  "\<not> test isPixelDimension ''#ff0000'' \<and> \<not> test isPercentDimension ''#ff0000'' \<and>
   resolveStyle (\<lambda>_. ''color: #ff0000'') (\<lambda>_. [''color'' \<mapsto> ''#ff0000'']) () None ''color''
     = Some (VStr ''#ff0000'')"
proof -
  have a: "\<not> test isPixelDimension ''#ff0000''"
    by (simp add: test_def isPixelDimension_def isDigit_def)
  have b: "\<not> test isPercentDimension ''#ff0000''"
    by (simp add: test_def isPercentDimension_def isDigit_def)
  from a b resolveStyle_passthrough [of "\<lambda>_. [''color'' \<mapsto> ''#ff0000'']"
      "\<lambda>_. ''color: #ff0000''" "()" "''color''" "''#ff0000''" None]
  show ?thesis by simp
qed

subsection \<open>getCategories\<close>

lemma firstSeen_set: "set (firstSeen seen as) = set as - set seen"
  by (induction as arbitrary: seen) auto

lemma firstSeen_distinct: "distinct (firstSeen seen as)"
  by (induction as arbitrary: seen) (auto simp: firstSeen_set)

lemma getUniqueDatasetValues_names:
  "set (getUniqueDatasetValues ss) = (\<Union>s \<in> set ss. name ` set (data s)) \<and>
   distinct (getUniqueDatasetValues ss)"
  by (simp add: getUniqueDatasetValues_def firstSeen_set firstSeen_distinct)

lemma insertBy_mset:
  "insertBy compare a bs = Inr r \<Longrightarrow> mset r = add_mset a (mset bs)"
proof (induction bs arbitrary: r)
  case Nil
  then show ?case by auto
next
  case (Cons b bs)
  then show ?case
    by (auto split: sum.splits if_splits)
qed

lemma sortBy_mset: "sortBy compare as = Inr r \<Longrightarrow> mset r = mset as"
proof (induction as arbitrary: r)
  case Nil
  then show ?case by simp
next
  case (Cons a as)
  then show ?case
    by (auto split: sum.splits dest: insertBy_mset)
qed

lemma insertBy_total:
  assumes "\<And>a b. \<exists>v. compare a b = Inr v"
  shows "\<exists>r. insertBy compare a bs = Inr r"
proof (induction bs)
  case Nil
  show ?case by simp
next
  case (Cons b bs)
  from assms obtain v where "compare a b = Inr v" by blast
  with Cons show ?case by auto
qed

lemma sortBy_total:
  assumes "\<And>a b. \<exists>v. compare a b = Inr v"
  shows "\<exists>r. sortBy compare as = Inr r"
proof (induction as)
  case Nil
  show ?case by simp
next
  case (Cons a as)
  then obtain r where "sortBy compare as = Inr r" by blast
  moreover from assms obtain r' where "insertBy compare a r = Inr r'"
    using insertBy_total [of compare a r] by blast
  ultimately show ?case by simp
qed

lemma defaultCompare_total: "\<exists>v. defaultCompare a b = Inr v"
  by (simp add: defaultCompare_def)

lemma sortBy_default: "\<exists>r. sortBy defaultCompare as = Inr r"
  by (rule sortBy_total) (rule defaultCompare_total)

text \<open>
  C7. With a \<open>categoryAxisSort\<close> that is a string other than \<open>firstSeries\<close>, \<open>asc\<close> and
  \<open>desc\<close>, \<open>getCategories\<close> returns the categories as \<open>getUniqueDatasetValues\<close> produced
  them, writes one warning to the console, and throws no exception.
\<close>

theorem getCategories_invalid_keyword:
  assumes "categoryAxisSort args' = Some (Keyword k)"
    and "k \<noteq> ''firstSeries''" and "k \<noteq> ''asc''" and "k \<noteq> ''desc''"
  shows "getCategories getUniqueDatasetValues' args' series
           = Inr (getUniqueDatasetValues' series, [''Invalid 'categoryAxisSort' value: '' @ k])"
  using assms by (simp add: getCategories_def)

theorem getCategories_invalid_keyword_witness:
  "categoryAxisSort (args0\<lparr>categoryAxisSort := Some (Keyword ''bogus'')\<rparr>) = Some (Keyword ''bogus'') \<and>
   getCategories getUniqueDatasetValues (args0\<lparr>categoryAxisSort := Some (Keyword ''bogus'')\<rparr>) series0
     = Inr ([''pear'', ''apple'', ''fig''], [''Invalid 'categoryAxisSort' value: bogus''])"
  using getCategories_invalid_keyword [of "args0\<lparr>categoryAxisSort := Some (Keyword ''bogus'')\<rparr>"
      "''bogus''" getUniqueDatasetValues series0]
  by (simp add: getUniqueDatasetValues_def series0_def)

text \<open>
  C10. Whatever the value of \<open>categoryAxisSort\<close> is, the array that \<open>getCategories\<close>
  returns has the elements of the array of unique names, each as often: sorting reorders
  the categories and neither adds, drops nor duplicates one. A result is returned unless
  a comparator of the caller throws.
\<close>

theorem getCategories_permutation:
  "(\<forall>cs ws. getCategories getUniqueDatasetValues' args' series = Inr (cs, ws)
       \<longrightarrow> mset cs = mset (getUniqueDatasetValues' series)) \<and>
   ((\<forall>f. categoryAxisSort args' = Some (Comparator f) \<longrightarrow> (\<forall>a b. \<exists>v. f a b = Inr v))
       \<longrightarrow> (\<exists>cs ws. getCategories getUniqueDatasetValues' args' series = Inr (cs, ws)))"
proof (intro conjI allI impI)
  fix cs ws
  assume "getCategories getUniqueDatasetValues' args' series = Inr (cs, ws)"
  then show "mset cs = mset (getUniqueDatasetValues' series)"
    by (auto simp: getCategories_def Let_def
        split: option.splits categoryAxisSort.splits if_splits sum.splits
        dest: sortBy_mset)
next
  assume tot: "\<forall>f. categoryAxisSort args' = Some (Comparator f) \<longrightarrow> (\<forall>a b. \<exists>v. f a b = Inr v)"
  show "\<exists>cs ws. getCategories getUniqueDatasetValues' args' series = Inr (cs, ws)"
  proof (cases "categoryAxisSort args'")
    case None
    then show ?thesis by (simp add: getCategories_def)
  next
    case (Some so)
    show ?thesis
    proof (cases so)
      case (Keyword k)
      obtain r where "sortBy defaultCompare (getUniqueDatasetValues' series) = Inr r"
        using sortBy_default by blast
      with Some Keyword show ?thesis by (auto simp: getCategories_def Let_def)
    next
      case (Comparator f)
      with Some tot have "\<And>a b. \<exists>v. f a b = Inr v" by blast
      then obtain r where "sortBy f (getUniqueDatasetValues' series) = Inr r"
        using sortBy_total [of f] by blast
      with Some Comparator show ?thesis by (auto simp: getCategories_def Let_def)
    qed
  qed
qed

theorem getCategories_permutation_witness:
  "getCategories getUniqueDatasetValues (args0\<lparr>categoryAxisSort := Some (Keyword ''desc'')\<rparr>) series0
     = Inr ([''pear'', ''fig'', ''apple''], []) \<and>
   mset [''pear'', ''fig'', ''apple''] = mset (getUniqueDatasetValues series0)"
proof -
  have e: "getCategories getUniqueDatasetValues (args0\<lparr>categoryAxisSort := Some (Keyword ''desc'')\<rparr>) series0
     = Inr ([''pear'', ''fig'', ''apple''], [])"
    by (simp add: getCategories_def getUniqueDatasetValues_def series0_def args0_def
        defaultCompare_def)
  with getCategories_permutation [of getUniqueDatasetValues
      "args0\<lparr>categoryAxisSort := Some (Keyword ''desc'')\<rparr>" series0]
  show ?thesis by blast
qed

subsection \<open>Axis sizing\<close>




subsection \<open>addAxisPointer\<close>







subsection \<open>The order of axis sizing\<close>







subsection \<open>Which objects are written\<close>

lemma snd_if: "snd (if b then p else q) = (if b then snd p else snd q)"
  by simp

lemma if_ex: "(\<exists>p. a = f p) \<Longrightarrow> (\<exists>p. b = f p) \<Longrightarrow> \<exists>p. (if c then a else b) = f p"
  by simp

lemma addAxisPointer_config:
  assumes "\<not> pointerOff (pointerType context axis)"
  shows "\<exists>p. snd (addAxisPointer context layout config axisInfo axis)
           = config\<lparr>axisPointer := Some p\<rparr>"
proof -
  from assms obtain t where t: "pointerType context axis = Some t" "\<not> (t = [] \<or> t = ''none'')"
    by (cases "pointerType context axis") (simp_all add: pointerOff_def)
  show ?thesis
    unfolding addAxisPointer_def t(1) option.case if_not_P [OF t(2)] Let_def snd_if snd_conv
    by (intro if_ex) (rule exI, rule refl)+
qed

lemma deref_Some_less: "deref h a = Some ob \<Longrightarrow> a < length h"
  by (simp add: deref_def split: if_splits)

lemma resolveStyle_store_frame:
  assumes "deref h style = Some (StyleObject st)"
  shows "\<exists>h' r. resolveStyle_store fmt prs h style ctx = Some (h', r) \<and> r = length h \<and>
           (\<forall>a < length h. deref h' a = deref h a) \<and>
           deref h' r = Some (ResolvedStyleObject (resolveStyle fmt prs st ctx))"
  using assms
  by (auto simp: resolveStyle_store_def alloc_def deref_def nth_append)

lemma getCategories_store_frame:
  assumes "deref h series = Some (SeriesArray ss)"
  shows "\<exists>h' res. getCategories_store guv args' h series = Some (h', res) \<and>
           (\<forall>a < length h. deref h' a = deref h a) \<and>
           (\<forall>r ws. res = Inr (r, ws) \<longrightarrow> r = length h)"
  using assms
  by (auto simp: getCategories_store_def alloc_def deref_def nth_append split: sum.splits)

lemma addAxisPointer_store_frame:
  assumes l: "deref h layout = Some (LayoutObject l)"
    and c: "deref h config = Some (ConfigObject c)"
  shows "\<exists>h' r. addAxisPointer_store context h layout config axisInfo axis = Some (h', r) \<and>
           deref h' layout = deref h layout \<and>
           (\<forall>a < length h. a \<noteq> config \<longrightarrow> deref h' a = deref h a) \<and>
           (pointerOff (pointerType context axis) \<longrightarrow> r = layout \<and> h' = h) \<and>
           (\<not> pointerOff (pointerType context axis) \<longrightarrow>
              r = length h \<and>
              deref h' r = Some (LayoutObject (fst (addAxisPointer context l c axisInfo axis))) \<and>
              deref h' config
                = Some (ConfigObject (snd (addAxisPointer context l c axisInfo axis))) \<and>
              axisPointer (snd (addAxisPointer context l c axisInfo axis)) \<noteq> None)"
proof (cases "pointerOff (pointerType context axis)")
  case True
  with l c show ?thesis by (simp add: addAxisPointer_store_def)
next
  case False
  from l c have lc: "layout < length h" "config < length h" "layout \<noteq> config"
    by (auto dest: deref_Some_less)
  obtain l' c' where p: "addAxisPointer context l c axisInfo axis = (l', c')"
    by (cases "addAxisPointer context l c axisInfo axis")
  from addAxisPointer_config [OF False, of l c axisInfo] p
  obtain q where q: "c' = c\<lparr>axisPointer := Some q\<rparr>" by auto
  have s: "addAxisPointer_store context h layout config axisInfo axis
             = Some (alloc (h[config := ConfigObject c']) (LayoutObject l'))"
    using l c False p by (simp add: addAxisPointer_store_def)
  show ?thesis
    using False lc l
    by (simp add: s p q alloc_def deref_def nth_append)
qed

text \<open>
  C9, as amended. \<open>resolveStyle\<close> leaves the style object and every other object as it
  was and returns a new object. \<open>getCategories\<close> leaves the series and every other
  object as it was and returns a new array. \<open>addAxisPointer\<close> leaves the layout object
  as it was; when the pointer is off it changes nothing and returns the layout object
  itself, and otherwise it returns a new layout object and assigns \<open>axisPointer\<close> in the
  configuration object that it was given, the only object it changes.
\<close>

theorem inputs_unchanged:
  "(deref h style = Some (StyleObject st) \<longrightarrow>
      (\<exists>h' r. resolveStyle_store formatCssStyleValue parseCssStyleValue h style sizing
                 = Some (h', r) \<and>
         r = length h \<and> (\<forall>a < length h. deref h' a = deref h a) \<and>
         deref h' r = Some (ResolvedStyleObject
                        (resolveStyle formatCssStyleValue parseCssStyleValue st sizing)))) \<and>
   (deref h layout = Some (LayoutObject l) \<and> deref h config = Some (ConfigObject c) \<longrightarrow>
      (\<exists>h' r. addAxisPointer_store context h layout config axisInfo axis = Some (h', r) \<and>
         deref h' layout = deref h layout \<and>
         (\<forall>a < length h. a \<noteq> config \<longrightarrow> deref h' a = deref h a) \<and>
         (pointerOff (pointerType context axis) \<longrightarrow> r = layout \<and> h' = h) \<and>
         (\<not> pointerOff (pointerType context axis) \<longrightarrow>
            r = length h \<and>
            deref h' r = Some (LayoutObject (fst (addAxisPointer context l c axisInfo axis))) \<and>
            deref h' config
              = Some (ConfigObject (snd (addAxisPointer context l c axisInfo axis))) \<and>
            axisPointer (snd (addAxisPointer context l c axisInfo axis)) \<noteq> None))) \<and>
   (deref h series = Some (SeriesArray ss) \<longrightarrow>
      (\<exists>h' res. getCategories_store getUniqueDatasetValues' args' h series = Some (h', res) \<and>
         (\<forall>a < length h. deref h' a = deref h a) \<and>
         (\<forall>r ws. res = Inr (r, ws) \<longrightarrow> r = length h)))"
proof (intro conjI impI)
  assume "deref h style = Some (StyleObject st)"
  then show "\<exists>h' r. resolveStyle_store formatCssStyleValue parseCssStyleValue h style sizing
                 = Some (h', r) \<and>
         r = length h \<and> (\<forall>a < length h. deref h' a = deref h a) \<and>
         deref h' r = Some (ResolvedStyleObject
                        (resolveStyle formatCssStyleValue parseCssStyleValue st sizing))"
    by (rule resolveStyle_store_frame)
next
  assume "deref h layout = Some (LayoutObject l) \<and> deref h config = Some (ConfigObject c)"
  then have "deref h layout = Some (LayoutObject l)" "deref h config = Some (ConfigObject c)"
    by simp_all
  then show "\<exists>h' r. addAxisPointer_store context h layout config axisInfo axis = Some (h', r) \<and>
         deref h' layout = deref h layout \<and>
         (\<forall>a < length h. a \<noteq> config \<longrightarrow> deref h' a = deref h a) \<and>
         (pointerOff (pointerType context axis) \<longrightarrow> r = layout \<and> h' = h) \<and>
         (\<not> pointerOff (pointerType context axis) \<longrightarrow>
            r = length h \<and>
            deref h' r = Some (LayoutObject (fst (addAxisPointer context l c axisInfo axis))) \<and>
            deref h' config
              = Some (ConfigObject (snd (addAxisPointer context l c axisInfo axis))) \<and>
            axisPointer (snd (addAxisPointer context l c axisInfo axis)) \<noteq> None)"
    by (rule addAxisPointer_store_frame)
next
  assume "deref h series = Some (SeriesArray ss)"
  then show "\<exists>h' res. getCategories_store getUniqueDatasetValues' args' h series = Some (h', res) \<and>
         (\<forall>a < length h. deref h' a = deref h a) \<and>
         (\<forall>r ws. res = Inr (r, ws) \<longrightarrow> r = length h)"
    by (rule getCategories_store_frame)
qed

lemma store0_deref:
  "deref store0 0 = Some (StyleObject ())"
  "deref store0 1 = Some (LayoutObject layout0)"
  "deref store0 2 = Some (ConfigObject \<lparr>axisPointer = None\<rparr>)"
  "deref store0 3 = Some (SeriesArray series0)"
  "length store0 = 4"
  by (simp_all add: deref_def store0_def)

theorem inputs_unchanged_witness:
  "deref store0 0 = Some (StyleObject ()) \<and>
   deref store0 1 = Some (LayoutObject layout0) \<and>
   deref store0 2 = Some (ConfigObject \<lparr>axisPointer = None\<rparr>) \<and>
   deref store0 3 = Some (SeriesArray series0) \<and>
   \<not> pointerOff (pointerType (pointerContext ''line'' ''bottom'') AxisX) \<and>
   (\<exists>h'. resolveStyle_store (\<lambda>_. ''color: red'') (\<lambda>_. [''color'' \<mapsto> ''red'']) store0 0 None
            = Some (h', 4) \<and>
      deref h' 0 = Some (StyleObject ())) \<and>
   (\<exists>h'. addAxisPointer_store (pointerContext ''line'' ''bottom'') store0 1 2 axisInfo0 AxisX
            = Some (h', 4) \<and>
      deref h' 1 = Some (LayoutObject layout0)) \<and>
   (\<exists>h' res. getCategories_store getUniqueDatasetValues
              (args0\<lparr>categoryAxisSort := Some (Keyword ''asc'')\<rparr>) store0 3 = Some (h', res) \<and>
      deref h' 3 = Some (SeriesArray series0))"
proof -
  have on: "\<not> pointerOff (pointerType (pointerContext ''line'' ''bottom'') AxisX)"
    by (simp add: pointerOff_def pointerType_def pointerContext_def args0_def)
  note u = inputs_unchanged [of store0 0 "()" "\<lambda>_. ''color: red''" "\<lambda>_. [''color'' \<mapsto> ''red'']" None
      1 layout0 2 "\<lparr>axisPointer = None\<rparr>" "pointerContext ''line'' ''bottom''" axisInfo0 AxisX
      3 series0 getUniqueDatasetValues "args0\<lparr>categoryAxisSort := Some (Keyword ''asc'')\<rparr>"]
  from u have "\<exists>h'. resolveStyle_store (\<lambda>_. ''color: red'') (\<lambda>_. [''color'' \<mapsto> ''red'']) store0 0 None
            = Some (h', 4) \<and> deref h' 0 = Some (StyleObject ())"
    using store0_deref by force
  moreover from u on have "\<exists>h'. addAxisPointer_store (pointerContext ''line'' ''bottom'') store0 1 2 axisInfo0 AxisX
            = Some (h', 4) \<and> deref h' 1 = Some (LayoutObject layout0)"
    using store0_deref by force
  moreover from u have "\<exists>h' res. getCategories_store getUniqueDatasetValues
              (args0\<lparr>categoryAxisSort := Some (Keyword ''asc'')\<rparr>) store0 3 = Some (h', res) \<and>
      deref h' 3 = Some (SeriesArray series0)"
    using store0_deref by force
  ultimately show ?thesis using on store0_deref by simp
qed

text \<open>
  With a line pointer the configuration object at reference \<open>2\<close> is another after the
  call; with the pointer off the reference returned is the reference of the argument.
\<close>

theorem inputs_unchanged_counterexample:
  "addAxisPointer_store (pointerContext ''line'' ''bottom'') store0 1 2 axisInfo0 AxisX \<noteq> None \<and>
   deref (fst (the (addAxisPointer_store (pointerContext ''line'' ''bottom'') store0 1 2
                      axisInfo0 AxisX))) 2
     \<noteq> deref store0 2 \<and>
   addAxisPointer_store (pointerContext ''none'' ''bottom'') store0 1 2 axisInfo0 AxisX
     = Some (store0, 1)"
proof -
  have on: "\<not> pointerOff (pointerType (pointerContext ''line'' ''bottom'') AxisX)"
    by (simp add: pointerOff_def pointerType_def pointerContext_def args0_def)
  have off: "pointerOff (pointerType (pointerContext ''none'' ''bottom'') AxisX)"
    by (simp add: pointerOff_def pointerType_def pointerContext_def args0_def)
  from addAxisPointer_store_frame [OF store0_deref(2) store0_deref(3),
      of "pointerContext ''line'' ''bottom''" axisInfo0 AxisX] on
  obtain h' r where
    s: "addAxisPointer_store (pointerContext ''line'' ''bottom'') store0 1 2 axisInfo0 AxisX
          = Some (h', r)"
    and d: "deref h' 2 = Some (ConfigObject (snd (addAxisPointer (pointerContext ''line'' ''bottom'')
              layout0 \<lparr>axisPointer = None\<rparr> axisInfo0 AxisX)))"
    and n: "axisPointer (snd (addAxisPointer (pointerContext ''line'' ''bottom'')
              layout0 \<lparr>axisPointer = None\<rparr> axisInfo0 AxisX)) \<noteq> None"
    by blast
  from d n have "deref h' 2 \<noteq> deref store0 2"
    by (auto simp: store0_deref)
  moreover from addAxisPointer_store_frame [OF store0_deref(2) store0_deref(3),
      of "pointerContext ''none'' ''bottom''" axisInfo0 AxisX] off
  have "addAxisPointer_store (pointerContext ''none'' ''bottom'') store0 1 2 axisInfo0 AxisX
     = Some (store0, 1)" by auto
  ultimately show ?thesis using s by simp
qed

end
